theory Spec2Isabelle
  imports Main "HOL-Library.AList"
begin

section \<open>PYPOWER \<open>int2ext\<close>: internal to external bus numbering\<close>

text \<open>
  The development embeds \<^verbatim>\<open>src/pypower/int2ext.py\<close>. The function is one Python 2
  routine that dispatches on the types of its five positional arguments:
  \<^item> a dict first and \<open>None\<close> second: whole-case restore (lines 98-166);
  \<^item> a dict first and a \<open>str\<close> or \<open>list\<close> second: named-field conversion (lines 168-189);
  \<^item> a dict first and anything else second: raw-value conversion (lines 190-221);
  \<^item> anything but a dict first: the old form on four tables (lines 222-228).

  Python values are a datatype, every exception the source can raise is a value of
  \<open>error\<close>, and \<open>logger.error\<close> appends to a list of messages that is returned next
  to the outcome.
\<close>

subsection \<open>Python values and exceptions\<close>

datatype error =
    KeyError string
  | TypeError
  | AttributeError string
  | IndexError
  | ValueError
  | NameError string

text \<open>
  \<open>PVec\<close> is a one-dimensional and \<open>PArr\<close> a two-dimensional numpy array (the list of
  its rows). Entries are integers: the code uses the identifier columns of the tables
  as indices into the bus map, and the other columns are payload that is only moved.
  A table with no rows does not record its number of columns. \<open>PDict\<close> is a dict with
  string keys, kept as an association list that is read through \<open>map_of\<close> and written
  through \<open>AList.update\<close> and \<open>AList.delete\<close>; the order of the list has no counterpart
  in Python.
\<close>

datatype pyval =
    PNone
  | PInt int
  | PStr string
  | PList "pyval list"
  | PVec "int list"
  | PArr "int list list"
  | PDict "(string \<times> pyval) list"

definition bindE :: "error + 'a \<Rightarrow> ('a \<Rightarrow> error + 'b) \<Rightarrow> error + 'b" where
  "bindE m f = (case m of Inl e \<Rightarrow> Inl e | Inr x \<Rightarrow> f x)"

text \<open>A block of statements: each one runs on the state the previous one left.\<close>

primrec run :: "('s \<Rightarrow> error + 's) list \<Rightarrow> 's \<Rightarrow> error + 's" where
  "run [] s = Inr s"
| "run (c # cs) s = bindE (c s) (run cs)"

primrec mapE :: "('a \<Rightarrow> error + 'b) \<Rightarrow> 'a list \<Rightarrow> error + 'b list" where
  "mapE f [] = Inr []"
| "mapE f (x # xs) = bindE (f x) (\<lambda>y. bindE (mapE f xs) (\<lambda>ys. Inr (y # ys)))"

subsection \<open>Dict operations\<close>

text \<open>\<open>d[k]\<close>: KeyError when the key is absent; a value that is no dict cannot be
  subscripted by a string.\<close>

definition getitem :: "pyval \<Rightarrow> string \<Rightarrow> error + pyval" where
  "getitem d k =
     (case d of
        PDict m \<Rightarrow> (case map_of m k of None \<Rightarrow> Inl (KeyError k) | Some v \<Rightarrow> Inr v)
      | _ \<Rightarrow> Inl TypeError)"

text \<open>\<open>d[k] = v\<close>\<close>

definition setitem :: "pyval \<Rightarrow> string \<Rightarrow> pyval \<Rightarrow> error + pyval" where
  "setitem d k v =
     (case d of PDict m \<Rightarrow> Inr (PDict (AList.update k v m)) | _ \<Rightarrow> Inl TypeError)"

text \<open>\<open>del d[k]\<close>\<close>

definition delitem :: "pyval \<Rightarrow> string \<Rightarrow> error + pyval" where
  "delitem d k =
     (case d of
        PDict m \<Rightarrow>
          (case map_of m k of
             None \<Rightarrow> Inl (KeyError k)
           | Some _ \<Rightarrow> Inr (PDict (AList.delete k m)))
      | _ \<Rightarrow> Inl TypeError)"

text \<open>\<open>d.has_key(k)\<close> (Python 2); only dicts have the method.\<close>

definition has_key :: "pyval \<Rightarrow> string \<Rightarrow> error + bool" where
  "has_key d k =
     (case d of
        PDict m \<Rightarrow> Inr (map_of m k \<noteq> None)
      | _ \<Rightarrow> Inl (AttributeError ''has_key''))"

text \<open>\<open>d[k1][k2]\<close>\<close>

definition getitem2 :: "pyval \<Rightarrow> string \<Rightarrow> string \<Rightarrow> error + pyval" where
  "getitem2 d k1 k2 = bindE (getitem d k1) (\<lambda>x. getitem x k2)"

definition is_dict :: "pyval \<Rightarrow> bool" where
  "is_dict v = (case v of PDict _ \<Rightarrow> True | _ \<Rightarrow> False)"

definition is_str :: "pyval \<Rightarrow> bool" where
  "is_str v = (case v of PStr _ \<Rightarrow> True | _ \<Rightarrow> False)"

definition is_list :: "pyval \<Rightarrow> bool" where
  "is_list v = (case v of PList _ \<Rightarrow> True | _ \<Rightarrow> False)"

subsection \<open>numpy indexing\<close>

text \<open>
  An index \<open>i\<close> into an axis of length \<open>n\<close> is valid for \<open>-n \<le> i < n\<close>; a negative one
  counts from the end. \<open>pos\<close> is the position a valid index denotes.
\<close>

definition pos :: "nat \<Rightarrow> int \<Rightarrow> nat" where
  "pos n i = nat (if i < 0 then i + int n else i)"

definition valid_index :: "nat \<Rightarrow> int \<Rightarrow> bool" where
  "valid_index n i \<longleftrightarrow> - int n \<le> i \<and> i < int n"

definition norm_index :: "nat \<Rightarrow> int \<Rightarrow> error + nat" where
  "norm_index n i = (if valid_index n i then Inr (pos n i) else Inl IndexError)"

text \<open>\<open>v[ids]\<close> for one-dimensional \<open>v\<close> and an integer index array \<open>ids\<close>.\<close>

definition vec_take :: "int list \<Rightarrow> int list \<Rightarrow> error + int list" where
  "vec_take v ids = mapE (\<lambda>i. bindE (norm_index (length v) i) (\<lambda>n. Inr (v ! n))) ids"

text \<open>\<open>A[idx, :]\<close>\<close>

definition take_rows :: "int list list \<Rightarrow> int list \<Rightarrow> error + int list list" where
  "take_rows A idx = mapE (\<lambda>i. bindE (norm_index (length A) i) (\<lambda>n. Inr (A ! n))) idx"

text \<open>\<open>A[idx, c]\<close>\<close>

definition take_col :: "int list list \<Rightarrow> int list \<Rightarrow> int \<Rightarrow> error + int list" where
  "take_col A idx c =
     mapE (\<lambda>i. bindE (norm_index (length A) i)
                 (\<lambda>n. bindE (norm_index (length (A ! n)) c) (\<lambda>k. Inr (A ! n ! k)))) idx"

text \<open>
  The right-hand side of an assignment is broadcast along each axis: a length that
  fits is taken as it is, a length of one is repeated, any other length is a ValueError.
\<close>

definition broadcast :: "nat \<Rightarrow> 'a list \<Rightarrow> error + 'a list" where
  "broadcast n xs =
     (if length xs = n then Inr xs
      else if length xs = 1 then Inr (replicate n (hd xs))
      else Inl ValueError)"

text \<open>
  \<open>A[idx, :] = B\<close>: \<open>B\<close> is broadcast to one row per index and each row to the width of
  the row it replaces; row \<open>idx[j]\<close> of \<open>A\<close> becomes row \<open>j\<close> of the result, in the order
  of \<open>idx\<close>. For a repeated index numpy does not promise which assignment stays; the
  model keeps the last one, and the statements about single rows below are for index
  arrays without repetition. A table with no rows does not say how wide it is, so
  with nothing to assign the model compares no widths.
\<close>

fun put_rows_each ::
  "int list list \<Rightarrow> int list \<Rightarrow> int list list \<Rightarrow> error + int list list"
where
  "put_rows_each A [] [] = Inr A"
| "put_rows_each A (i # idx) (b # B) =
     bindE (norm_index (length A) i)
       (\<lambda>n. bindE (broadcast (length (A ! n)) b)
          (\<lambda>b'. put_rows_each (A[n := b']) idx B))"
| "put_rows_each A _ _ = Inl ValueError"

definition put_rows :: "int list list \<Rightarrow> int list \<Rightarrow> int list list \<Rightarrow> error + int list list" where
  "put_rows A idx B = bindE (broadcast (length idx) B) (put_rows_each A idx)"

text \<open>\<open>A[idx, c] = vals\<close>, with \<open>vals\<close> broadcast to one value per index.\<close>

fun put_col_each ::
  "int list list \<Rightarrow> int list \<Rightarrow> int \<Rightarrow> int list \<Rightarrow> error + int list list"
where
  "put_col_each A [] c [] = Inr A"
| "put_col_each A (i # idx) c (x # vals) =
     bindE (norm_index (length A) i)
       (\<lambda>n. bindE (norm_index (length (A ! n)) c)
          (\<lambda>k. put_col_each (A[n := (A ! n)[k := x]]) idx c vals))"
| "put_col_each A _ c _ = Inl ValueError"

definition put_col :: "int list list \<Rightarrow> int list \<Rightarrow> int \<Rightarrow> int list \<Rightarrow> error + int list list" where
  "put_col A idx c vals = bindE (broadcast (length idx) vals) (put_col_each A idx c)"

text \<open>
  The operands as Python values. An index is a one-dimensional integer array or a
  Python list of ints. A single int selects one row: numpy then reads a row or an
  entry instead of an array of them, and the assignments of the restore block leave
  the table that the one-element index array leaves, so the model reads it as that.
\<close>

definition ints_of :: "error \<Rightarrow> pyval list \<Rightarrow> error + int list" where
  "ints_of e xs = mapE (\<lambda>x. case x of PInt i \<Rightarrow> Inr i | _ \<Rightarrow> Inl e) xs"

definition as_index :: "pyval \<Rightarrow> error + int list" where
  "as_index v =
     (case v of
        PVec js \<Rightarrow> Inr js
      | PInt i \<Rightarrow> Inr [i]
      | PList xs \<Rightarrow> ints_of IndexError xs
      | _ \<Rightarrow> Inl IndexError)"

text \<open>
  A right-hand side is made an array first: a scalar, a one-dimensional array or a
  list of ints counts as a single row, a list of rows of one length as a table.
\<close>

definition as_vec :: "pyval \<Rightarrow> error + int list" where
  "as_vec v =
     (case v of
        PVec xs \<Rightarrow> Inr xs
      | PInt x \<Rightarrow> Inr [x]
      | PList xs \<Rightarrow> ints_of ValueError xs
      | _ \<Rightarrow> Inl ValueError)"

definition as_row :: "pyval \<Rightarrow> error + int list" where
  "as_row v =
     (case v of
        PVec xs \<Rightarrow> Inr xs
      | PList xs \<Rightarrow> ints_of ValueError xs
      | _ \<Rightarrow> Inl ValueError)"

definition is_int :: "pyval \<Rightarrow> bool" where
  "is_int v = (case v of PInt _ \<Rightarrow> True | _ \<Rightarrow> False)"

definition as_rows :: "pyval \<Rightarrow> error + int list list" where
  "as_rows v =
     (case v of
        PArr B \<Rightarrow> Inr B
      | PVec xs \<Rightarrow> Inr [xs]
      | PInt x \<Rightarrow> Inr [[x]]
      | PList xs \<Rightarrow>
          if list_all is_int xs then bindE (ints_of ValueError xs) (\<lambda>b. Inr [b])
          else bindE (mapE as_row xs)
                 (\<lambda>B. if list_all (\<lambda>b. length b = length (hd B)) B then Inr B
                      else Inl ValueError)
      | _ \<Rightarrow> Inl ValueError)"

text \<open>The table or vector that is indexed has to be an array.\<close>

definition np_take :: "pyval \<Rightarrow> pyval \<Rightarrow> error + pyval" where
  "np_take v ids =
     (case v of
        PVec xs \<Rightarrow>
          bindE (as_index ids) (\<lambda>js. bindE (vec_take xs js) (\<lambda>r. Inr (PVec r)))
      | _ \<Rightarrow> Inl TypeError)"

definition np_rows :: "pyval \<Rightarrow> pyval \<Rightarrow> error + pyval" where
  "np_rows t idx =
     (case t of
        PArr A \<Rightarrow>
          bindE (as_index idx) (\<lambda>js. bindE (take_rows A js) (\<lambda>r. Inr (PArr r)))
      | _ \<Rightarrow> Inl TypeError)"

definition np_col :: "pyval \<Rightarrow> pyval \<Rightarrow> int \<Rightarrow> error + pyval" where
  "np_col t idx c =
     (case t of
        PArr A \<Rightarrow>
          bindE (as_index idx) (\<lambda>js. bindE (take_col A js c) (\<lambda>r. Inr (PVec r)))
      | _ \<Rightarrow> Inl TypeError)"

definition np_set_rows :: "pyval \<Rightarrow> pyval \<Rightarrow> pyval \<Rightarrow> error + pyval" where
  "np_set_rows t idx src =
     (case t of
        PArr A \<Rightarrow>
          bindE (as_rows src) (\<lambda>B.
          bindE (as_index idx) (\<lambda>js.
          bindE (put_rows A js B) (\<lambda>r. Inr (PArr r))))
      | _ \<Rightarrow> Inl TypeError)"

definition np_set_col :: "pyval \<Rightarrow> pyval \<Rightarrow> int \<Rightarrow> pyval \<Rightarrow> error + pyval" where
  "np_set_col t idx c vals =
     (case t of
        PArr A \<Rightarrow>
          bindE (as_vec vals) (\<lambda>xs.
          bindE (as_index idx) (\<lambda>js.
          bindE (put_col A js c xs) (\<lambda>r. Inr (PArr r))))
      | _ \<Rightarrow> Inl TypeError)"

text \<open>The index array of the full slice \<open>A[:, c]\<close>.\<close>

definition all_rows :: "pyval \<Rightarrow> pyval" where
  "all_rows t = (case t of PArr A \<Rightarrow> PVec (map int [0 ..< length A]) | _ \<Rightarrow> PNone)"

text \<open>\<open>a.any()\<close>: some entry is non-zero.\<close>

definition np_any :: "pyval \<Rightarrow> error + bool" where
  "np_any a =
     (case a of
        PArr A \<Rightarrow> Inr (\<exists>r \<in> set A. \<exists>x \<in> set r. x \<noteq> 0)
      | PVec xs \<Rightarrow> Inr (\<exists>x \<in> set xs. x \<noteq> 0)
      | _ \<Rightarrow> Inl (AttributeError ''any''))"

text \<open>\<open>a.shape[0]\<close>\<close>

definition shape0 :: "pyval \<Rightarrow> error + int" where
  "shape0 a =
     (case a of
        PArr A \<Rightarrow> Inr (int (length A))
      | PVec xs \<Rightarrow> Inr (int (length xs))
      | _ \<Rightarrow> Inl (AttributeError ''shape''))"

text \<open>\<open>len(v)\<close>\<close>

definition py_len :: "pyval \<Rightarrow> error + nat" where
  "py_len v =
     (case v of
        PList xs \<Rightarrow> Inr (length xs)
      | PStr cs \<Rightarrow> Inr (length cs)
      | PVec xs \<Rightarrow> Inr (length xs)
      | PArr A \<Rightarrow> Inr (length A)
      | PDict m \<Rightarrow> Inr (length (remdups (map fst m)))
      | _ \<Rightarrow> Inl TypeError)"

text \<open>\<open>xs[k]\<close> for the loop index \<open>k\<close> of a \<open>range\<close>. The dicts of the model have
  string keys only, so in a dict the integer key \<open>k\<close> is never present.\<close>

definition item :: "pyval \<Rightarrow> nat \<Rightarrow> error + pyval" where
  "item v k =
     (case v of
        PList xs \<Rightarrow> (if k < length xs then Inr (xs ! k) else Inl IndexError)
      | PStr cs \<Rightarrow> (if k < length cs then Inr (PStr [cs ! k]) else Inl IndexError)
      | PVec xs \<Rightarrow> (if k < length xs then Inr (PInt (xs ! k)) else Inl IndexError)
      | PArr A \<Rightarrow> (if k < length A then Inr (PVec (A ! k)) else Inl IndexError)
      | PDict m \<Rightarrow> Inl (KeyError ''k'')
      | _ \<Rightarrow> Inl TypeError)"

subsection \<open>What the module imports\<close>

text \<open>
  The column constants come from \<^verbatim>\<open>bus_idx\<close>, \<^verbatim>\<open>gen_idx\<close>, \<^verbatim>\<open>brch_idx\<close> and
  \<^verbatim>\<open>idx_area\<close>, and \<^verbatim>\<open>run_userfcn\<close>, \<^verbatim>\<open>get_reorder\<close> and \<^verbatim>\<open>set_reorder\<close> from
  modules of their own. None of them is part of the file, so they are parameters of the
  model. \<open>run_userfcn\<close> is taken as a function of the case that returns the new case.
\<close>

record extern =
  BUS_I :: int
  GEN_BUS :: int
  F_BUS :: int
  T_BUS :: int
  PRICE_REF_BUS :: int
  run_userfcn :: "pyval \<Rightarrow> string \<Rightarrow> pyval \<Rightarrow> error + pyval"
  get_reorder :: "pyval \<Rightarrow> pyval \<Rightarrow> pyval \<Rightarrow> error + pyval"
  set_reorder :: "pyval \<Rightarrow> pyval \<Rightarrow> pyval \<Rightarrow> pyval \<Rightarrow> error + pyval"

subsection \<open>The messages logged\<close>

definition msg_no_order :: string where
  "msg_no_order =
     ''int2ext: mpc does not have the '' @ [CHR 0x22] @ ''order'' @ [CHR 0x22] @
     '' field require for conversion back to external numbering.''"

definition msg_already_external :: string where
  "msg_already_external = ''int2ext: mpc claims it is already using external numbering.''"

subsection \<open>Whole-case restore, lines 109-161\<close>

text \<open>
  The block works on two names: \<open>mpc\<close>, the case, and \<open>o\<close>, the order record bound at
  line 102. The state of the block is the pair of their values. The input case is taken
  to be a tree: no dict or array object is reachable from it along two paths. The
  sharing the block itself creates is followed by hand: lines 113-121 bind
  \<open>mpc[k]\<close> to the very array that \<open>o['ext'][k]\<close> holds, so lines 130-156 also change
  what \<open>o['ext']\<close> shows; nothing reads \<open>o['ext']\<close> after line 127, and line 159 deletes
  it, so the model leaves it as it was.
\<close>

type_synonym frame = "pyval \<times> pyval"

text \<open>\<open>o['int'][k] = mpc[k]\<close>\<close>

definition save_int :: "string \<Rightarrow> frame \<Rightarrow> error + frame" where
  "save_int k s =
     (case s of (mpc, od) \<Rightarrow>
        bindE (getitem mpc k) (\<lambda>v.
        bindE (getitem od ''int'') (\<lambda>oi.
        bindE (setitem oi k v) (\<lambda>oi'.
        bindE (setitem od ''int'' oi') (\<lambda>o'. Inr (mpc, o'))))))"

text \<open>\<open>mpc[k] = o['ext'][k]\<close>\<close>

definition load_ext :: "string \<Rightarrow> frame \<Rightarrow> error + frame" where
  "load_ext k s =
     (case s of (mpc, od) \<Rightarrow>
        bindE (getitem od ''ext'') (\<lambda>oe.
        bindE (getitem oe k) (\<lambda>v.
        bindE (setitem mpc k v) (\<lambda>mpc'. Inr (mpc', od)))))"

text \<open>\<open>if mpc.has_key(k): ...\<close>\<close>

definition when_key :: "string \<Rightarrow> (frame \<Rightarrow> error + frame) list \<Rightarrow> frame \<Rightarrow> error + frame" where
  "when_key k body s =
     bindE (has_key (fst s) k) (\<lambda>b. if b then run body s else Inr s)"

text \<open>\<open>o[k]['status']['on']\<close>\<close>

definition status_on :: "pyval \<Rightarrow> string \<Rightarrow> error + pyval" where
  "status_on od k =
     bindE (getitem od k) (\<lambda>ok.
     bindE (getitem ok ''status'') (\<lambda>st. getitem st ''on''))"

text \<open>\<open>mpc[k][o[k]['status']['on'], :] = o['int'][k]\<close>, lines 130-133 and 137-138\<close>

definition scatter_on :: "string \<Rightarrow> frame \<Rightarrow> error + frame" where
  "scatter_on k s =
     (case s of (mpc, od) \<Rightarrow>
        bindE (getitem od ''int'') (\<lambda>oi.
        bindE (getitem oi k) (\<lambda>src.
        bindE (getitem mpc k) (\<lambda>t.
        bindE (status_on od k) (\<lambda>on.
        bindE (np_set_rows t on src) (\<lambda>t'.
        bindE (setitem mpc k t') (\<lambda>mpc'. Inr (mpc', od))))))))"

text \<open>\<open>mpc['gen'][o['gen']['status']['on'], :] = o['int']['gen'][o['gen']['i2e'], :]\<close>,
  lines 134-135\<close>

definition scatter_gen :: "frame \<Rightarrow> error + frame" where
  "scatter_gen s =
     (case s of (mpc, od) \<Rightarrow>
        bindE (getitem od ''int'') (\<lambda>oi.
        bindE (getitem oi ''gen'') (\<lambda>gi.
        bindE (getitem od ''gen'') (\<lambda>og.
        bindE (getitem og ''i2e'') (\<lambda>p.
        bindE (np_rows gi p) (\<lambda>src.
        bindE (getitem mpc ''gen'') (\<lambda>t.
        bindE (status_on od ''gen'') (\<lambda>on.
        bindE (np_set_rows t on src) (\<lambda>t'.
        bindE (setitem mpc ''gen'' t') (\<lambda>mpc'. Inr (mpc', od)))))))))))"

text \<open>\<open>mpc[k][on, c] = o['bus']['i2e'][ mpc[k][on, c] ]\<close> with
  \<open>on = o[k]['status']['on']\<close>, lines 141-156\<close>

definition revert_ids :: "string \<Rightarrow> int \<Rightarrow> frame \<Rightarrow> error + frame" where
  "revert_ids k c s =
     (case s of (mpc, od) \<Rightarrow>
        bindE (getitem od ''bus'') (\<lambda>ob.
        bindE (getitem ob ''i2e'') (\<lambda>i2e.
        bindE (getitem mpc k) (\<lambda>t.
        bindE (status_on od k) (\<lambda>on.
        bindE (np_col t on c) (\<lambda>ids.
        bindE (np_take i2e ids) (\<lambda>vals.
        bindE (getitem mpc k) (\<lambda>t1.
        bindE (status_on od k) (\<lambda>on1.
        bindE (np_set_col t1 on1 c vals) (\<lambda>t'.
        bindE (setitem mpc k t') (\<lambda>mpc'. Inr (mpc', od))))))))))))"

text \<open>\<open>if o.has_key('ext'): del o['ext']\<close>\<close>

definition drop_ext :: "frame \<Rightarrow> error + frame" where
  "drop_ext s =
     (case s of (mpc, od) \<Rightarrow>
        bindE (has_key od ''ext'') (\<lambda>b.
          if b then bindE (delitem od ''ext'') (\<lambda>o'. Inr (mpc, o')) else Inr (mpc, od)))"

text \<open>\<open>o['state'] = 'e'\<close>\<close>

definition set_state_e :: "frame \<Rightarrow> error + frame" where
  "set_state_e s =
     (case s of (mpc, od) \<Rightarrow> bindE (setitem od ''state'' (PStr ''e'')) (\<lambda>o'. Inr (mpc, o')))"

text \<open>\<open>mpc['order'] = o\<close>\<close>

definition store_order :: "frame \<Rightarrow> error + frame" where
  "store_order s =
     (case s of (mpc, od) \<Rightarrow> bindE (setitem mpc ''order'' od) (\<lambda>mpc'. Inr (mpc', od)))"

text \<open>Lines 109-127: save data matrices with internal ordering and restore originals.\<close>

definition swap_tables :: "(frame \<Rightarrow> error + frame) list" where
  "swap_tables =
     [ save_int ''bus'', save_int ''branch'', save_int ''gen'',
       load_ext ''bus'', load_ext ''branch'', load_ext ''gen'',
       when_key ''gencost'' [save_int ''gencost'', load_ext ''gencost''],
       when_key ''areas'' [save_int ''areas'', load_ext ''areas''],
       when_key ''A'' [save_int ''A'', load_ext ''A''],
       when_key ''N'' [save_int ''N'', load_ext ''N''] ]"

text \<open>Lines 129-138: update data (in bus, branch and gen only).\<close>

definition update_data :: "(frame \<Rightarrow> error + frame) list" where
  "update_data =
     [ scatter_on ''bus'',
       scatter_on ''branch'',
       scatter_gen,
       when_key ''areas'' [scatter_on ''areas''] ]"

text \<open>Lines 140-156: revert to original bus numbers.\<close>

definition revert_numbers :: "extern \<Rightarrow> (frame \<Rightarrow> error + frame) list" where
  "revert_numbers X =
     [ revert_ids ''bus'' (BUS_I X),
       revert_ids ''branch'' (F_BUS X),
       revert_ids ''branch'' (T_BUS X),
       revert_ids ''gen'' (GEN_BUS X),
       when_key ''areas'' [revert_ids ''areas'' (PRICE_REF_BUS X)] ]"

text \<open>Lines 158-161.\<close>

definition finish :: "(frame \<Rightarrow> error + frame) list" where
  "finish = [ drop_ext, set_state_e, store_order ]"

definition restore_block :: "extern \<Rightarrow> (frame \<Rightarrow> error + frame) list" where
  "restore_block X = swap_tables @ update_data @ revert_numbers X @ finish"

text \<open>Lines 106-107: the \<open>userfcn\<close> callbacks run on the case; \<open>o\<close> stays bound to the
  order record read at line 102.\<close>

definition callbacks :: "extern \<Rightarrow> pyval \<Rightarrow> error + pyval" where
  "callbacks X mpc =
     bindE (has_key mpc ''userfcn'') (\<lambda>b.
       if b then bindE (getitem mpc ''userfcn'') (\<lambda>u. run_userfcn X u ''int2ext'' mpc)
       else Inr mpc)"

type_synonym outcome = "string list \<times> (error + pyval \<times> pyval \<times> pyval \<times> pyval)"

text \<open>
  Lines 98-166, \<open>bus is None\<close>. The first component of the result is what was logged.
  A missing \<open>order\<close> key is logged, and line 102 then reads the key all the same.
\<close>

definition int2ext_case :: "extern \<Rightarrow> pyval \<Rightarrow> pyval \<Rightarrow> pyval \<Rightarrow> pyval \<Rightarrow> outcome" where
  "int2ext_case X mpc gen branch areas =
     (case has_key mpc ''order'' of
        Inl e \<Rightarrow> ([], Inl e)
      | Inr b \<Rightarrow>
          (let log = (if \<not> b then [msg_no_order] else []) in
           case getitem mpc ''order'' of
             Inl e \<Rightarrow> (log, Inl e)
           | Inr od \<Rightarrow>
               (case getitem od ''state'' of
                  Inl e \<Rightarrow> (log, Inl e)
                | Inr st \<Rightarrow>
                    if st = PStr ''i'' then
                      (log,
                       bindE (callbacks X mpc) (\<lambda>mpc1.
                       bindE (run (restore_block X) (mpc1, od)) (\<lambda>s.
                         Inr (fst s, gen, branch, areas))))
                    else (log @ [msg_already_external], Inr (mpc, gen, branch, areas)))))"

subsection \<open>Named-field conversion, lines 168-189\<close>

text \<open>
  Lines 176-178 subscript with the string literal \<open>'field'\<close>, not with the variable
  \<open>field\<close>, and line 178 reads \<open>mpc['order'].ext\<close>, an attribute, where the order record
  is a dict: evaluating the arguments of the inner call raises AttributeError before
  the call is made. In the branch for a path (lines 180-188) the names \<open>s\<close>, \<open>array\<close>,
  \<open>subsasgn\<close> and \<open>subsref\<close> are bound nowhere in the module.
\<close>

definition int2ext_field ::
  "extern \<Rightarrow> pyval \<Rightarrow> pyval \<Rightarrow> pyval \<Rightarrow> pyval \<Rightarrow> pyval \<Rightarrow> error + pyval \<times> pyval \<times> pyval \<times> pyval"
where
  "int2ext_field X mpc field ordering' branch areas =
     (let dim = (if branch \<noteq> PNone then branch else PInt 1) in
      case field of
        PStr _ \<Rightarrow>
          bindE (getitem mpc ''field'') (\<lambda>v.
          bindE (getitem mpc ''order'') (\<lambda>od.
          bindE (getitem od ''int'') (\<lambda>oi.
          bindE (setitem oi ''field'' v) (\<lambda>oi'.
          bindE (setitem od ''int'' oi') (\<lambda>od'.
          bindE (setitem mpc ''order'' od') (\<lambda>mpc1.
          bindE (getitem mpc1 ''field'') (\<lambda>val.
          bindE (getitem mpc1 ''order'') (\<lambda>od1.
            Inl (AttributeError ''ext'')))))))))
      | PList fs \<Rightarrow>
          if fs \<noteq> [] then Inl (NameError ''s'')
          else
            bindE (getitem mpc ''order'') (\<lambda>od.
            bindE (has_key od ''int'') (\<lambda>b.
              if \<not> b then Inl (NameError ''array'') else Inl (NameError ''subsasgn'')))
      | _ \<Rightarrow> Inl TypeError)"

subsection \<open>Raw-value conversion, lines 190-221\<close>

text \<open>
  The single-set branch (lines 199-205) subscripts the order record with the string
  literal \<open>'ordering'\<close>. The body of the loop over several sets (lines 210-216) adds the
  int \<open>bi\<close> to the list \<open>range(ni)\<close> while it evaluates the arguments of
  \<open>get_reorder\<close>, which is a TypeError in Python; after the loop line 217 calls \<open>size\<close>,
  a name the module does not bind.
\<close>

definition multi_body :: "pyval \<Rightarrow> pyval \<Rightarrow> nat \<Rightarrow> int \<times> int \<Rightarrow> error + int \<times> int" where
  "multi_body mpc od k s =
     bindE (getitem od ''ext'') (\<lambda>oe.
     bindE (getitem oe ''ordering'') (\<lambda>oo.
     bindE (item oo k) (\<lambda>x.
     bindE (shape0 x) (\<lambda>ne.
     bindE (getitem mpc ''ordering'') (\<lambda>mo.
     bindE (item mo k) (\<lambda>y.
     bindE (shape0 y) (\<lambda>ni.
       Inl TypeError)))))))"

definition int2ext_value ::
  "extern \<Rightarrow> pyval \<Rightarrow> pyval \<Rightarrow> pyval \<Rightarrow> pyval \<Rightarrow> pyval \<Rightarrow> error + pyval \<times> pyval \<times> pyval \<times> pyval"
where
  "int2ext_value X mpc val oldval ordering' areas =
     bindE (getitem mpc ''order'') (\<lambda>od.
       let dim = (if areas \<noteq> PNone then areas else PInt 1) in
       if is_str ordering' then
         bindE (if ordering' = PStr ''gen'' then
                  bindE (getitem od ''ordering'') (\<lambda>oo.
                  bindE (getitem oo ''i2e'') (\<lambda>p. get_reorder X val p dim))
                else Inr val) (\<lambda>v.
         bindE (status_on od ''ordering'') (\<lambda>on.
         bindE (set_reorder X oldval v on dim) (\<lambda>r.
           Inr (r, oldval, ordering', areas))))
       else
         bindE (py_len ordering') (\<lambda>n.
         bindE (run (map (multi_body mpc od) [0 ..< n]) (0, 0)) (\<lambda>s.
           Inl (NameError ''size''))))"

subsection \<open>The old form, lines 222-228\<close>

text \<open>\<open>t[:, c] = i2e[ t[:, c] ]\<close>\<close>

definition remap_col :: "pyval \<Rightarrow> pyval \<Rightarrow> int \<Rightarrow> error + pyval" where
  "remap_col i2e t c =
     bindE (np_col t (all_rows t) c) (\<lambda>ids.
     bindE (np_take i2e ids) (\<lambda>vals.
       np_set_col t (all_rows t) c vals))"

definition int2ext_old ::
  "extern \<Rightarrow> pyval \<Rightarrow> pyval \<Rightarrow> pyval \<Rightarrow> pyval \<Rightarrow> pyval \<Rightarrow> error + pyval \<times> pyval \<times> pyval \<times> pyval"
where
  "int2ext_old X i2e bus gen branch areas =
     bindE (remap_col i2e bus (BUS_I X)) (\<lambda>bus'.
     bindE (remap_col i2e gen (GEN_BUS X)) (\<lambda>gen'.
     bindE (remap_col i2e branch (F_BUS X)) (\<lambda>branch1.
     bindE (remap_col i2e branch1 (T_BUS X)) (\<lambda>branch'.
       if areas \<noteq> PNone \<and> branch' \<noteq> PNone then
         bindE (np_any areas) (\<lambda>a.
           if \<not> a then
             bindE (remap_col i2e areas (PRICE_REF_BUS X)) (\<lambda>areas'.
               Inr (bus', gen', branch', areas'))
           else Inr (bus', gen', branch', areas))
       else Inr (bus', gen', branch', areas)))))"

subsection \<open>The function\<close>

text \<open>
  \<open>def int2ext(i2e, bus, gen, branch, areas)\<close> gives no parameter a default, so every
  call passes five arguments; the forms with fewer pass \<open>None\<close> for the rest. The result
  is the tuple \<open>bus, gen, branch, areas\<close> of line 230.
\<close>

definition int2ext :: "extern \<Rightarrow> pyval \<Rightarrow> pyval \<Rightarrow> pyval \<Rightarrow> pyval \<Rightarrow> pyval \<Rightarrow> outcome" where
  "int2ext X i2e bus gen branch areas =
     (if is_dict i2e then
        (if bus = PNone then int2ext_case X i2e gen branch areas
         else if is_str bus \<or> is_list bus then
           ([], int2ext_field X i2e bus gen branch areas)
         else ([], int2ext_value X i2e bus gen branch areas))
      else ([], int2ext_old X i2e bus gen branch areas))"

subsection \<open>Vocabulary of the statements\<close>

text \<open>
  A table row whose identifier column \<open>c\<close> holds an internal bus number, with that
  number replaced by the entry of the map \<open>q\<close> it indexes; every other column is kept.
\<close>

definition renumber :: "int list \<Rightarrow> int \<Rightarrow> int list \<Rightarrow> int list" where
  "renumber q c row =
     (let k = pos (length row) c in row[k := q ! pos (length q) (row ! k)])"

subsection \<open>A case in internal numbering\<close>

text \<open>
  Three buses of which the second is isolated, three generators of which the second is
  off and the other two were swapped by the forward conversion, two branches of which
  the second is off. The columns are those of PYPOWER: bus number first in \<open>bus\<close> and
  \<open>gen\<close>, from and to bus first in \<open>branch\<close>. No callbacks are registered, and the
  reorder primitives of this environment select and insert rows.
\<close>

definition order_entry :: "int list \<Rightarrow> int list \<Rightarrow> pyval" where
  "order_entry on p = PDict [(''status'', PDict [(''on'', PVec on)]), (''i2e'', PVec p)]"

definition example_extern :: extern where
  "example_extern =
     \<lparr> BUS_I = 0, GEN_BUS = 0, F_BUS = 0, T_BUS = 1, PRICE_REF_BUS = 1,
       run_userfcn = (\<lambda>u stage mpc. Inr mpc),
       get_reorder = (\<lambda>A idx dim. np_rows A idx),
       set_reorder = (\<lambda>A B idx dim. np_set_rows A idx B) \<rparr>"

definition example_order :: pyval where
  "example_order =
     PDict [(''state'', PStr ''i''), (''int'', PDict []),
       (''ext'', PDict [(''bus'', PArr [[10, 1], [20, 2], [30, 3]]),
                       (''branch'', PArr [[10, 30, 0], [10, 20, 0]]),
                       (''gen'', PArr [[10, 0], [20, 0], [30, 0]]),
                       (''gencost'', PArr [[1, 1], [2, 2], [3, 3]])]),
       (''bus'', order_entry [0, 2] [10, 30]),
       (''branch'', order_entry [0] []),
       (''gen'', order_entry [0, 2] [1, 0])]"

definition example_case :: pyval where
  "example_case =
     PDict [(''bus'', PArr [[0, 7], [1, 8]]), (''branch'', PArr [[0, 1, 5]]),
       (''gen'', PArr [[1, 50], [0, 60]]), (''gencost'', PArr [[9, 9], [8, 8]]),
       (''order'', example_order)]"

text \<open>The order record and the case after the restore.\<close>

definition example_restored_order :: pyval where
  "example_restored_order =
     PDict [(''state'', PStr ''e''),
       (''int'', PDict [(''bus'', PArr [[0, 7], [1, 8]]), (''branch'', PArr [[0, 1, 5]]),
                       (''gen'', PArr [[1, 50], [0, 60]]), (''gencost'', PArr [[9, 9], [8, 8]])]),
       (''bus'', order_entry [0, 2] [10, 30]),
       (''branch'', order_entry [0] []),
       (''gen'', order_entry [0, 2] [1, 0])]"

definition example_restored :: pyval where
  "example_restored =
     PDict [(''bus'', PArr [[10, 7], [20, 2], [30, 8]]),
       (''branch'', PArr [[10, 30, 5], [10, 20, 0]]),
       (''gen'', PArr [[10, 60], [20, 0], [30, 50]]),
       (''gencost'', PArr [[1, 1], [2, 2], [3, 3]]),
       (''order'', example_restored_order)]"

text \<open>
  The same case with an internal \<open>bus\<close> table of one column and a \<open>gen.i2e\<close> of one
  entry, so that lines 130 and 134 broadcast, and the case after the restore.
\<close>

definition broadcast_order :: pyval where
  "broadcast_order =
     PDict [(''state'', PStr ''i''), (''int'', PDict []),
       (''ext'', PDict [(''bus'', PArr [[10, 1], [20, 2], [30, 3]]),
                       (''branch'', PArr [[10, 30, 0], [10, 20, 0]]),
                       (''gen'', PArr [[10, 0], [20, 0], [30, 0]]),
                       (''gencost'', PArr [[1, 1], [2, 2], [3, 3]])]),
       (''bus'', order_entry [0, 2] [10, 30]),
       (''branch'', order_entry [0] []),
       (''gen'', order_entry [0, 2] [1])]"

definition broadcast_case :: pyval where
  "broadcast_case =
     PDict [(''bus'', PArr [[0], [1]]), (''branch'', PArr [[0, 1, 5]]),
       (''gen'', PArr [[1, 50], [0, 60]]), (''gencost'', PArr [[9, 9], [8, 8]]),
       (''order'', broadcast_order)]"

definition broadcast_restored :: pyval where
  "broadcast_restored =
     PDict [(''bus'', PArr [[10, 0], [20, 2], [30, 1]]),
       (''branch'', PArr [[10, 30, 5], [10, 20, 0]]),
       (''gen'', PArr [[10, 60], [20, 0], [10, 60]]),
       (''gencost'', PArr [[1, 1], [2, 2], [3, 3]]),
       (''order'',
        PDict [(''state'', PStr ''e''),
          (''int'', PDict [(''bus'', PArr [[0], [1]]), (''branch'', PArr [[0, 1, 5]]),
                          (''gen'', PArr [[1, 50], [0, 60]]),
                          (''gencost'', PArr [[9, 9], [8, 8]])]),
          (''bus'', order_entry [0, 2] [10, 30]),
          (''branch'', order_entry [0] []),
          (''gen'', order_entry [0, 2] [1])])]"

section \<open>Properties of the building blocks\<close>

subsection \<open>Sequencing\<close>

lemma bindE_Inl [simp]: "bindE (Inl e) f = Inl e"
  by (simp add: bindE_def)

lemma bindE_Inr [simp]: "bindE (Inr x) f = f x"
  by (simp add: bindE_def)

lemma bindE_eq_Inr: "bindE m f = Inr y \<longleftrightarrow> (\<exists>x. m = Inr x \<and> f x = Inr y)"
  by (cases m) simp_all

lemma run_append: "run (cs @ ds) s = bindE (run cs s) (run ds)"
  by (induction cs arbitrary: s) (simp_all add: bindE_def split: sum.splits)

lemma mapE_Inr: "mapE f xs = Inr ys \<longleftrightarrow> list_all2 (\<lambda>x y. f x = Inr y) xs ys"
proof (induction xs arbitrary: ys)
  case Nil
  then show ?case by auto
next
  case (Cons x xs)
  then show ?case by (cases ys) (auto simp: bindE_eq_Inr)
qed

subsection \<open>Dicts\<close>

lemma getitem_Inr: "getitem d k = Inr v \<longleftrightarrow> (\<exists>m. d = PDict m \<and> map_of m k = Some v)"
  by (auto simp: getitem_def split: pyval.splits option.splits)

lemma setitem_Inr:
  "setitem d k v = Inr d' \<longleftrightarrow> (\<exists>m. d = PDict m \<and> d' = PDict (AList.update k v m))"
  by (auto simp: setitem_def split: pyval.splits)

lemma getitem_setitem:
  "setitem d k v = Inr d' \<Longrightarrow> getitem d' k' = (if k' = k then Inr v else getitem d k')"
  by (auto simp: setitem_Inr getitem_def update_conv')

lemma has_key_setitem:
  "setitem d k v = Inr d' \<Longrightarrow> has_key d' k' = (if k' = k then Inr True else has_key d k')"
  by (auto simp: setitem_Inr has_key_def update_conv')

lemma delitem_Inr:
  "delitem d k = Inr d' \<longleftrightarrow>
     (\<exists>m v. d = PDict m \<and> map_of m k = Some v \<and> d' = PDict (AList.delete k m))"
  by (auto simp: delitem_def split: pyval.splits option.splits)

lemma getitem_delitem:
  "delitem d k = Inr d' \<Longrightarrow>
     getitem d' k' = (if k' = k then Inl (KeyError k) else getitem d k')"
  by (auto simp: delitem_Inr getitem_def delete_conv')

lemma has_key_Inr:
  "has_key d k = Inr b \<longleftrightarrow> (\<exists>m. d = PDict m \<and> b = (map_of m k \<noteq> None))"
  by (auto simp: has_key_def split: pyval.splits)

lemma has_key_getitem: "has_key d k = Inr b \<Longrightarrow> b = (\<exists>v. getitem d k = Inr v)"
  by (auto simp: has_key_Inr getitem_def split: option.splits)

lemma getitem2_cong: "getitem d k = getitem d' k \<Longrightarrow> getitem2 d k k2 = getitem2 d' k k2"
  by (simp add: getitem2_def)

lemma getitem_is_dict: "getitem d k = Inr v \<Longrightarrow> is_dict d"
  by (auto simp: getitem_Inr is_dict_def)

subsection \<open>Index arrays\<close>

lemma norm_index_Inr: "norm_index n i = Inr k \<longleftrightarrow> valid_index n i \<and> k = pos n i"
  by (auto simp: norm_index_def)

lemma pos_less: "valid_index n i \<Longrightarrow> pos n i < n"
  by (auto simp: pos_def valid_index_def)

lemma take_rows_Inr:
  assumes "take_rows A idx = Inr G"
  shows "length G = length idx"
    and "j < length idx \<Longrightarrow> valid_index (length A) (idx ! j)"
    and "j < length idx \<Longrightarrow> G ! j = A ! pos (length A) (idx ! j)"
  using assms
  by (auto simp: take_rows_def mapE_Inr list_all2_conv_all_nth bindE_eq_Inr norm_index_Inr)

lemma take_col_Inr:
  assumes "take_col A idx c = Inr v"
  shows "length v = length idx"
    and "j < length idx \<Longrightarrow> valid_index (length (A ! pos (length A) (idx ! j))) c"
    and "j < length idx \<Longrightarrow>
           v ! j = A ! pos (length A) (idx ! j) ! pos (length (A ! pos (length A) (idx ! j))) c"
  using assms
  by (auto simp: take_col_def mapE_Inr list_all2_conv_all_nth bindE_eq_Inr norm_index_Inr)

lemma vec_take_Inr:
  assumes "vec_take q ids = Inr v"
  shows "length v = length ids"
    and "j < length ids \<Longrightarrow> valid_index (length q) (ids ! j)"
    and "j < length ids \<Longrightarrow> v ! j = q ! pos (length q) (ids ! j)"
  using assms
  by (auto simp: vec_take_def mapE_Inr list_all2_conv_all_nth bindE_eq_Inr norm_index_Inr)

lemma broadcast_same: "length xs = n \<Longrightarrow> broadcast n xs = Inr xs"
  by (simp add: broadcast_def)

lemma broadcast_length: "broadcast n xs = Inr ys \<Longrightarrow> length ys = n"
  by (auto simp: broadcast_def split: if_splits)

lemma broadcast_nth:
  "broadcast n xs = Inr ys \<Longrightarrow> j < n \<Longrightarrow> ys ! j = xs ! (if length xs = n then j else 0)"
  by (cases xs) (auto simp: broadcast_def split: if_splits)

text \<open>A column that is valid before and after the broadcast holds the same entry.\<close>

lemma broadcast_entry:
  assumes "broadcast w b = Inr b'" and "valid_index (length b) c" and "valid_index w c"
  shows "b' ! pos w c = b ! pos (length b) c"
proof (cases "length b = w")
  case True
  with assms(1) show ?thesis by (simp add: broadcast_def)
next
  case False
  with assms(1) obtain x where b: "b = [x]" and b': "b' = replicate w x"
    by (cases b) (auto simp: broadcast_def split: if_splits)
  from assms(2) b have "pos (length b) c = 0"
    by (auto simp: valid_index_def pos_def)
  with b b' pos_less [OF assms(3)] show ?thesis by simp
qed

lemma put_rows_each_length: "put_rows_each A idx B = Inr R \<Longrightarrow> length R = length A"
  by (induction A idx B rule: put_rows_each.induct) (auto simp: bindE_eq_Inr)

lemma put_rows_each_valid:
  "put_rows_each A idx B = Inr R \<Longrightarrow> i \<in> set idx \<Longrightarrow> valid_index (length A) i"
  by (induction A idx B rule: put_rows_each.induct) (auto simp: bindE_eq_Inr norm_index_Inr)

lemma put_rows_each_untouched:
  "put_rows_each A idx B = Inr R \<Longrightarrow> n \<notin> pos (length A) ` set idx \<Longrightarrow> R ! n = A ! n"
  by (induction A idx B rule: put_rows_each.induct) (auto simp: bindE_eq_Inr norm_index_Inr)

lemma put_rows_each_nth:
  "put_rows_each A idx B = Inr R \<Longrightarrow> distinct (map (pos (length A)) idx) \<Longrightarrow>
     j < length idx \<Longrightarrow>
     broadcast (length (A ! pos (length A) (idx ! j))) (B ! j) =
       Inr (R ! pos (length A) (idx ! j))"
proof (induction A idx B arbitrary: j rule: put_rows_each.induct)
  case (2 A i idx b B)
  let ?n = "pos (length A) i"
  from "2.prems"(1) obtain b' where valid: "valid_index (length A) i"
    and w: "broadcast (length (A ! ?n)) b = Inr b'"
    and rest: "put_rows_each (A[?n := b']) idx B = Inr R"
    by (auto simp: bindE_eq_Inr norm_index_Inr)
  show ?case
  proof (cases j)
    case 0
    from "2.prems"(2) have "?n \<notin> pos (length (A[?n := b'])) ` set idx" by auto
    from put_rows_each_untouched [OF rest this] pos_less [OF valid] w 0 show ?thesis by simp
  next
    case (Suc j')
    with "2.prems" have d: "distinct (map (pos (length (A[?n := b']))) idx)"
      and j': "j' < length idx"
      by auto
    from "2.prems"(2) nth_mem [OF j'] have ne: "pos (length A) (idx ! j') \<noteq> ?n"
      by (auto simp: image_iff)
    from "2.IH" [OF rest d j'] ne Suc show ?thesis
      by simp
  qed
qed simp_all

lemma put_rows_Inr:
  "put_rows A idx B = Inr R \<longleftrightarrow>
     (\<exists>B'. broadcast (length idx) B = Inr B' \<and> put_rows_each A idx B' = Inr R)"
  by (simp add: put_rows_def bindE_eq_Inr)

lemma put_rows_length: "put_rows A idx B = Inr R \<Longrightarrow> length R = length A"
  by (auto simp: put_rows_Inr dest: put_rows_each_length)

lemma put_rows_valid: "put_rows A idx B = Inr R \<Longrightarrow> i \<in> set idx \<Longrightarrow> valid_index (length A) i"
  by (auto simp: put_rows_Inr dest: put_rows_each_valid)

lemma put_rows_untouched:
  "put_rows A idx B = Inr R \<Longrightarrow> n \<notin> pos (length A) ` set idx \<Longrightarrow> R ! n = A ! n"
  by (auto simp: put_rows_Inr dest: put_rows_each_untouched)

text \<open>The row at position \<open>idx[j]\<close>: row \<open>j\<close> of \<open>B\<close>, or its only row, at the width of the
  row it replaces.\<close>

lemma put_rows_nth:
  assumes "put_rows A idx B = Inr R" and "distinct (map (pos (length A)) idx)"
    and "j < length idx"
  shows "broadcast (length (A ! pos (length A) (idx ! j)))
           (B ! (if length B = length idx then j else 0)) =
         Inr (R ! pos (length A) (idx ! j))"
proof -
  from assms(1) obtain B' where B': "broadcast (length idx) B = Inr B'"
    and each: "put_rows_each A idx B' = Inr R"
    by (auto simp: put_rows_Inr)
  from put_rows_each_nth [OF each assms(2,3)] broadcast_nth [OF B' assms(3)]
  show ?thesis by simp
qed

lemma put_rows_shape:
  "put_rows A idx B = Inr R \<Longrightarrow> length B = length idx \<or> length B = 1"
  by (auto simp: put_rows_Inr broadcast_def split: if_splits)

lemma put_col_each_length: "put_col_each A idx c vals = Inr R \<Longrightarrow> length R = length A"
  by (induction A idx c vals rule: put_col_each.induct) (auto simp: bindE_eq_Inr)

lemma put_col_each_untouched:
  "put_col_each A idx c vals = Inr R \<Longrightarrow> n \<notin> pos (length A) ` set idx \<Longrightarrow> R ! n = A ! n"
  by (induction A idx c vals rule: put_col_each.induct)
     (auto simp: bindE_eq_Inr norm_index_Inr)

lemma put_col_each_nth:
  "put_col_each A idx c vals = Inr R \<Longrightarrow> distinct (map (pos (length A)) idx) \<Longrightarrow>
     j < length idx \<Longrightarrow>
     R ! pos (length A) (idx ! j) =
       (A ! pos (length A) (idx ! j))
         [pos (length (A ! pos (length A) (idx ! j))) c := vals ! j]"
proof (induction A idx c vals arbitrary: j rule: put_col_each.induct)
  case (2 A i idx c x vals)
  let ?n = "pos (length A) i"
  let ?k = "pos (length (A ! ?n)) c"
  let ?A = "A[?n := (A ! ?n)[?k := x]]"
  from "2.prems"(1) have valid: "valid_index (length A) i"
    and rest: "put_col_each ?A idx c vals = Inr R"
    by (auto simp: bindE_eq_Inr norm_index_Inr)
  show ?case
  proof (cases j)
    case 0
    from "2.prems"(2) have "?n \<notin> pos (length ?A) ` set idx" by auto
    from put_col_each_untouched [OF rest this] pos_less [OF valid] 0 show ?thesis by simp
  next
    case (Suc j')
    with "2.prems" have d: "distinct (map (pos (length ?A)) idx)" and j': "j' < length idx"
      by auto
    from "2.prems"(2) nth_mem [OF j'] have ne: "pos (length A) (idx ! j') \<noteq> ?n"
      by (auto simp: image_iff)
    have "R ! pos (length ?A) (idx ! j') =
       (?A ! pos (length ?A) (idx ! j'))
         [pos (length (?A ! pos (length ?A) (idx ! j'))) c := vals ! j']"
      using "2.IH" [OF rest d j'] by simp
    with ne Suc show ?thesis by simp
  qed
qed simp_all

text \<open>One value per index, as in every assignment to a column that the source makes.\<close>

lemma put_col_same:
  "length vals = length idx \<Longrightarrow> put_col A idx c vals = put_col_each A idx c vals"
  by (simp add: put_col_def broadcast_same)

lemma put_col_length: "put_col A idx c vals = Inr R \<Longrightarrow> length R = length A"
  by (auto simp: put_col_def bindE_eq_Inr dest: put_col_each_length)

lemma put_col_untouched:
  "put_col A idx c vals = Inr R \<Longrightarrow> n \<notin> pos (length A) ` set idx \<Longrightarrow> R ! n = A ! n"
  by (auto simp: put_col_def bindE_eq_Inr dest: put_col_each_untouched)

lemma put_col_nth:
  assumes "put_col A idx c vals = Inr R" and "length vals = length idx"
    and "distinct (map (pos (length A)) idx)" and "j < length idx"
  shows "R ! pos (length A) (idx ! j) =
       (A ! pos (length A) (idx ! j))
         [pos (length (A ! pos (length A) (idx ! j))) c := vals ! j]"
  using assms(1) put_col_each_nth [OF _ assms(3,4)]
  by (simp add: put_col_same [OF assms(2)])

lemma as_index_PVec [simp]: "as_index (PVec js) = Inr js"
  by (simp add: as_index_def)

lemma as_rows_PArr [simp]: "as_rows (PArr B) = Inr B"
  by (simp add: as_rows_def)

lemma as_vec_PVec [simp]: "as_vec (PVec xs) = Inr xs"
  by (simp add: as_vec_def)

lemma np_rows_Inr:
  "np_rows t idx = Inr r \<longleftrightarrow>
     (\<exists>A js G. t = PArr A \<and> as_index idx = Inr js \<and> r = PArr G \<and> take_rows A js = Inr G)"
  by (auto simp: np_rows_def bindE_eq_Inr split: pyval.splits)

lemma np_col_Inr:
  "np_col t idx c = Inr r \<longleftrightarrow>
     (\<exists>A js v. t = PArr A \<and> as_index idx = Inr js \<and> r = PVec v \<and> take_col A js c = Inr v)"
  by (auto simp: np_col_def bindE_eq_Inr split: pyval.splits)

lemma np_take_Inr:
  "np_take q ids = Inr r \<longleftrightarrow>
     (\<exists>xs js v. q = PVec xs \<and> as_index ids = Inr js \<and> r = PVec v \<and> vec_take xs js = Inr v)"
  by (auto simp: np_take_def bindE_eq_Inr split: pyval.splits)

lemma np_set_rows_Inr:
  "np_set_rows t idx src = Inr r \<longleftrightarrow>
     (\<exists>A js B R. t = PArr A \<and> as_index idx = Inr js \<and> as_rows src = Inr B \<and> r = PArr R \<and>
        put_rows A js B = Inr R)"
  by (auto simp: np_set_rows_def bindE_eq_Inr split: pyval.splits)

lemma np_set_col_Inr:
  "np_set_col t idx c vals = Inr r \<longleftrightarrow>
     (\<exists>A js xs R. t = PArr A \<and> as_index idx = Inr js \<and> as_vec vals = Inr xs \<and> r = PArr R \<and>
        put_col A js c xs = Inr R)"
  by (auto simp: np_set_col_def bindE_eq_Inr split: pyval.splits)

subsection \<open>The statements of the restore block\<close>

lemma save_int_effect:
  assumes "save_int k s = Inr s'"
  shows "fst s' = fst s"
    and "k' \<noteq> ''int'' \<Longrightarrow> getitem (snd s') k' = getitem (snd s) k'"
    and "k' \<noteq> ''int'' \<Longrightarrow> getitem2 (snd s') k' k2 = getitem2 (snd s) k' k2"
    and "getitem2 (snd s') ''int'' k' =
           (if k' = k then getitem (fst s) k else getitem2 (snd s) ''int'' k')"
  using assms
  by (cases s; auto simp: save_int_def bindE_eq_Inr getitem2_def getitem_setitem)+

lemma load_ext_effect:
  assumes "load_ext k s = Inr s'"
  shows "snd s' = snd s"
    and "getitem (fst s') k' =
           (if k' = k then getitem2 (snd s) ''ext'' k else getitem (fst s) k')"
    and "\<exists>e. getitem2 (snd s) ''ext'' k = Inr e"
  using assms
  by (cases s; auto simp: load_ext_def bindE_eq_Inr getitem2_def getitem_setitem)+

lemma scatter_on_effect:
  assumes "scatter_on k s = Inr s'"
  shows "snd s' = snd s"
    and "k' \<noteq> k \<Longrightarrow> getitem (fst s') k' = getitem (fst s) k'"
    and "\<exists>t on src t'. getitem (fst s) k = Inr t \<and> status_on (snd s) k = Inr on \<and>
           getitem2 (snd s) ''int'' k = Inr src \<and> np_set_rows t on src = Inr t' \<and>
           getitem (fst s') k = Inr t'"
  using assms
  by (cases s; auto simp: scatter_on_def bindE_eq_Inr getitem2_def getitem_setitem)+

lemma scatter_gen_effect:
  assumes "scatter_gen s = Inr s'"
  shows "snd s' = snd s"
    and "k' \<noteq> ''gen'' \<Longrightarrow> getitem (fst s') k' = getitem (fst s) k'"
    and "\<exists>t on gi p src t'. getitem (fst s) ''gen'' = Inr t \<and>
           status_on (snd s) ''gen'' = Inr on \<and>
           getitem2 (snd s) ''int'' ''gen'' = Inr gi \<and> getitem2 (snd s) ''gen'' ''i2e'' = Inr p \<and>
           np_rows gi p = Inr src \<and> np_set_rows t on src = Inr t' \<and>
           getitem (fst s') ''gen'' = Inr t'"
  using assms
  by (cases s; auto simp: scatter_gen_def bindE_eq_Inr getitem2_def getitem_setitem)+

lemma revert_ids_effect:
  assumes "revert_ids k c s = Inr s'"
  shows "snd s' = snd s"
    and "k' \<noteq> k \<Longrightarrow> getitem (fst s') k' = getitem (fst s) k'"
    and "\<exists>t on q ids vals t'. getitem (fst s) k = Inr t \<and> status_on (snd s) k = Inr on \<and>
           getitem2 (snd s) ''bus'' ''i2e'' = Inr q \<and> np_col t on c = Inr ids \<and>
           np_take q ids = Inr vals \<and> np_set_col t on c vals = Inr t' \<and>
           getitem (fst s') k = Inr t'"
  using assms
  by (cases s; auto simp: revert_ids_def bindE_eq_Inr getitem2_def getitem_setitem)+

lemma when_key_cases:
  assumes "when_key k body s = Inr s'"
  shows "((\<exists>v. getitem (fst s) k = Inr v) \<and> run body s = Inr s') \<or>
         ((\<forall>v. getitem (fst s) k \<noteq> Inr v) \<and> s' = s)"
  using assms
  by (auto simp: when_key_def bindE_eq_Inr dest!: has_key_getitem split: if_splits)

lemma when_key_only:
  assumes "when_key k [c] s = Inr s'"
    and "\<And>s1 k'. c s = Inr s1 \<Longrightarrow>
           snd s1 = snd s \<and> (k' \<noteq> k \<longrightarrow> getitem (fst s1) k' = getitem (fst s) k')"
  shows "snd s' = snd s" and "k' \<noteq> k \<Longrightarrow> getitem (fst s') k' = getitem (fst s) k'"
  using when_key_cases [OF assms(1)] assms(2)
  by (auto simp: bindE_eq_Inr)

lemma swap_opt_effect:
  assumes "when_key k [save_int k, load_ext k] s = Inr s'"
  shows "k' \<noteq> ''int'' \<Longrightarrow> getitem (snd s') k' = getitem (snd s) k'"
    and "k' \<noteq> ''int'' \<Longrightarrow> getitem2 (snd s') k' k2 = getitem2 (snd s) k' k2"
    and "k' \<noteq> k \<Longrightarrow> getitem (fst s') k' = getitem (fst s) k'"
    and "k' \<noteq> k \<Longrightarrow> getitem2 (snd s') ''int'' k' = getitem2 (snd s) ''int'' k'"
    and "getitem (fst s) k = Inr v \<Longrightarrow> getitem (fst s') k = getitem2 (snd s) ''ext'' k"
    and "getitem (fst s) k = Inr v \<Longrightarrow> getitem2 (snd s') ''int'' k = Inr v"
    and "getitem (fst s) k = Inr v \<Longrightarrow> \<exists>e. getitem2 (snd s) ''ext'' k = Inr e"
proof -
  from when_key_cases [OF assms] consider
      (ran) s1 where "save_int k s = Inr s1" "load_ext k s1 = Inr s'"
    | (skipped) "\<forall>v. getitem (fst s) k \<noteq> Inr v" "s' = s"
    by (auto simp: bindE_eq_Inr)
  note c = this
  show "k' \<noteq> ''int'' \<Longrightarrow> getitem (snd s') k' = getitem (snd s) k'"
    using c by cases (simp_all add: save_int_effect load_ext_effect)
  show "k' \<noteq> ''int'' \<Longrightarrow> getitem2 (snd s') k' k2 = getitem2 (snd s) k' k2"
    using c by cases (simp_all add: save_int_effect load_ext_effect)
  show "k' \<noteq> k \<Longrightarrow> getitem (fst s') k' = getitem (fst s) k'"
    using c by cases (simp_all add: save_int_effect load_ext_effect)
  show "k' \<noteq> k \<Longrightarrow> getitem2 (snd s') ''int'' k' = getitem2 (snd s) ''int'' k'"
    using c by cases (simp_all add: save_int_effect load_ext_effect)
  show "getitem (fst s) k = Inr v \<Longrightarrow> getitem (fst s') k = getitem2 (snd s) ''ext'' k"
    using c by cases (simp_all add: save_int_effect load_ext_effect)
  show "getitem (fst s) k = Inr v \<Longrightarrow> getitem2 (snd s') ''int'' k = Inr v"
    using c by cases (simp_all add: save_int_effect load_ext_effect)
  show "getitem (fst s) k = Inr v \<Longrightarrow> \<exists>e. getitem2 (snd s) ''ext'' k = Inr e"
    using c
  proof cases
    case ran
    from load_ext_effect(3) [OF ran(2)] show ?thesis
      by (simp add: save_int_effect [OF ran(1)])
  qed simp
qed

lemma drop_ext_effect:
  assumes "drop_ext s = Inr s'"
  shows "fst s' = fst s"
    and "has_key (snd s') ''ext'' = Inr False"
    and "k' \<noteq> ''ext'' \<Longrightarrow> getitem (snd s') k' = getitem (snd s) k'"
proof -
  obtain mpc od where s: "s = (mpc, od)" by (cases s)
  from assms s obtain b where b: "has_key od ''ext'' = Inr b"
    and r: "(if b then bindE (delitem od ''ext'') (\<lambda>o'. Inr (mpc, o')) else Inr (mpc, od)) = Inr s'"
    by (auto simp: drop_ext_def bindE_eq_Inr)
  show "fst s' = fst s"
    using r s by (auto simp: bindE_eq_Inr split: if_splits)
  show "has_key (snd s') ''ext'' = Inr False"
    using r b by (auto simp: bindE_eq_Inr delitem_Inr has_key_def delete_conv' split: if_splits)
  show "k' \<noteq> ''ext'' \<Longrightarrow> getitem (snd s') k' = getitem (snd s) k'"
    using r s by (auto simp: bindE_eq_Inr getitem_delitem split: if_splits)
qed

lemma set_state_e_effect:
  assumes "set_state_e s = Inr s'"
  shows "fst s' = fst s"
    and "getitem (snd s') k = (if k = ''state'' then Inr (PStr ''e'') else getitem (snd s) k)"
    and "has_key (snd s') k = (if k = ''state'' then Inr True else has_key (snd s) k)"
  using assms
  by (cases s; auto simp: set_state_e_def bindE_eq_Inr getitem_setitem has_key_setitem)+

lemma store_order_effect:
  assumes "store_order s = Inr s'"
  shows "snd s' = snd s"
    and "getitem (fst s') k = (if k = ''order'' then Inr (snd s) else getitem (fst s) k)"
  using assms
  by (cases s; auto simp: store_order_def bindE_eq_Inr getitem_setitem)+

subsection \<open>The four parts of the restore block\<close>

lemma swap_tables_effect:
  assumes "run swap_tables s = Inr s'"
  shows "k' \<noteq> ''int'' \<Longrightarrow> getitem (snd s') k' = getitem (snd s) k'"
    and "k' \<noteq> ''int'' \<Longrightarrow> getitem2 (snd s') k' k2 = getitem2 (snd s) k' k2"
    and "k \<in> {''bus'', ''branch'', ''gen''} \<Longrightarrow> getitem (fst s') k = getitem2 (snd s) ''ext'' k"
    and "k \<in> {''bus'', ''branch'', ''gen''} \<Longrightarrow> getitem2 (snd s') ''int'' k = getitem (fst s) k"
    and "getitem (fst s) ''gencost'' = Inr v \<Longrightarrow>
           getitem (fst s') ''gencost'' = getitem2 (snd s) ''ext'' ''gencost''"
    and "getitem (fst s) ''gencost'' = Inr v \<Longrightarrow>
           getitem2 (snd s') ''int'' ''gencost'' = Inr v"
    and "getitem (fst s) ''gencost'' = Inr v \<Longrightarrow>
           \<exists>e. getitem2 (snd s) ''ext'' ''gencost'' = Inr e"
proof -
  from assms obtain s1 s2 s3 s4 s5 s6 s7 s8 s9 where st:
    "save_int ''bus'' s = Inr s1" "save_int ''branch'' s1 = Inr s2" "save_int ''gen'' s2 = Inr s3"
    "load_ext ''bus'' s3 = Inr s4" "load_ext ''branch'' s4 = Inr s5" "load_ext ''gen'' s5 = Inr s6"
    "when_key ''gencost'' [save_int ''gencost'', load_ext ''gencost''] s6 = Inr s7"
    "when_key ''areas'' [save_int ''areas'', load_ext ''areas''] s7 = Inr s8"
    "when_key ''A'' [save_int ''A'', load_ext ''A''] s8 = Inr s9"
    "when_key ''N'' [save_int ''N'', load_ext ''N''] s9 = Inr s'"
    unfolding swap_tables_def by (auto simp: bindE_eq_Inr)
  note sv = save_int_effect [OF st(1)] save_int_effect [OF st(2)] save_int_effect [OF st(3)]
  note ld = load_ext_effect(1,2) [OF st(4)] load_ext_effect(1,2) [OF st(5)]
    load_ext_effect(1,2) [OF st(6)]
  note op = swap_opt_effect(1-4) [OF st(7)] swap_opt_effect(1-4) [OF st(8)]
    swap_opt_effect(1-4) [OF st(9)] swap_opt_effect(1-4) [OF st(10)]
  show "k' \<noteq> ''int'' \<Longrightarrow> getitem (snd s') k' = getitem (snd s) k'"
    by (simp add: sv ld op)
  show "k' \<noteq> ''int'' \<Longrightarrow> getitem2 (snd s') k' k2 = getitem2 (snd s) k' k2"
    by (simp add: sv ld op)
  show "k \<in> {''bus'', ''branch'', ''gen''} \<Longrightarrow> getitem (fst s') k = getitem2 (snd s) ''ext'' k"
    by (auto simp: sv ld op)
  show "k \<in> {''bus'', ''branch'', ''gen''} \<Longrightarrow> getitem2 (snd s') ''int'' k = getitem (fst s) k"
    by (auto simp: sv ld op)
  have pre: "getitem (fst s6) ''gencost'' = getitem (fst s) ''gencost''"
    by (simp add: sv ld)
  have ext6: "getitem2 (snd s6) ''ext'' ''gencost'' = getitem2 (snd s) ''ext'' ''gencost''"
    by (simp add: sv ld)
  show "getitem (fst s) ''gencost'' = Inr v \<Longrightarrow>
          getitem (fst s') ''gencost'' = getitem2 (snd s) ''ext'' ''gencost''"
    using swap_opt_effect(5) [OF st(7), of v] pre ext6 by (simp add: op)
  show "getitem (fst s) ''gencost'' = Inr v \<Longrightarrow> getitem2 (snd s') ''int'' ''gencost'' = Inr v"
    using swap_opt_effect(6) [OF st(7), of v] pre by (simp add: op)
  show "getitem (fst s) ''gencost'' = Inr v \<Longrightarrow>
          \<exists>e. getitem2 (snd s) ''ext'' ''gencost'' = Inr e"
    using swap_opt_effect(7) [OF st(7), of v] pre ext6 by simp
qed

lemma update_data_effect:
  assumes "run update_data s = Inr s'"
  shows "snd s' = snd s"
    and "k' \<notin> {''bus'', ''branch'', ''gen'', ''areas''} \<Longrightarrow>
           getitem (fst s') k' = getitem (fst s) k'"
    and "\<exists>t on src t'. getitem (fst s) ''bus'' = Inr t \<and> status_on (snd s) ''bus'' = Inr on \<and>
           getitem2 (snd s) ''int'' ''bus'' = Inr src \<and> np_set_rows t on src = Inr t' \<and>
           getitem (fst s') ''bus'' = Inr t'"
    and "\<exists>t on gi p src t'. getitem (fst s) ''gen'' = Inr t \<and>
           status_on (snd s) ''gen'' = Inr on \<and>
           getitem2 (snd s) ''int'' ''gen'' = Inr gi \<and> getitem2 (snd s) ''gen'' ''i2e'' = Inr p \<and>
           np_rows gi p = Inr src \<and> np_set_rows t on src = Inr t' \<and>
           getitem (fst s') ''gen'' = Inr t'"
proof -
  from assms obtain s1 s2 s3 where st:
    "scatter_on ''bus'' s = Inr s1" "scatter_on ''branch'' s1 = Inr s2"
    "scatter_gen s2 = Inr s3" "when_key ''areas'' [scatter_on ''areas''] s3 = Inr s'"
    unfolding update_data_def by (auto simp: bindE_eq_Inr)
  note a = scatter_on_effect [OF st(1)]
  note b = scatter_on_effect [OF st(2)]
  note c = scatter_gen_effect [OF st(3)]
  note d = when_key_only [OF st(4),
      OF conjI [OF scatter_on_effect(1) impI [OF scatter_on_effect(2)]]]
  show "snd s' = snd s"
    by (simp add: a b c d)
  show "k' \<notin> {''bus'', ''branch'', ''gen'', ''areas''} \<Longrightarrow>
          getitem (fst s') k' = getitem (fst s) k'"
    by (simp add: a b c d)
  show "\<exists>t on src t'. getitem (fst s) ''bus'' = Inr t \<and> status_on (snd s) ''bus'' = Inr on \<and>
           getitem2 (snd s) ''int'' ''bus'' = Inr src \<and> np_set_rows t on src = Inr t' \<and>
           getitem (fst s') ''bus'' = Inr t'"
    using a(3) by (simp add: a(1,2) b(1,2) c(1,2) d)
  show "\<exists>t on gi p src t'. getitem (fst s) ''gen'' = Inr t \<and>
           status_on (snd s) ''gen'' = Inr on \<and>
           getitem2 (snd s) ''int'' ''gen'' = Inr gi \<and> getitem2 (snd s) ''gen'' ''i2e'' = Inr p \<and>
           np_rows gi p = Inr src \<and> np_set_rows t on src = Inr t' \<and>
           getitem (fst s') ''gen'' = Inr t'"
    using c(3) by (simp add: a(1,2) b(1,2) c(1,2) d)
qed

lemma revert_numbers_effect:
  assumes "run (revert_numbers X) s = Inr s'"
  shows "snd s' = snd s"
    and "k' \<notin> {''bus'', ''branch'', ''gen'', ''areas''} \<Longrightarrow>
           getitem (fst s') k' = getitem (fst s) k'"
    and "\<exists>t on q ids vals t'. getitem (fst s) ''bus'' = Inr t \<and>
           status_on (snd s) ''bus'' = Inr on \<and>
           getitem2 (snd s) ''bus'' ''i2e'' = Inr q \<and> np_col t on (BUS_I X) = Inr ids \<and>
           np_take q ids = Inr vals \<and> np_set_col t on (BUS_I X) vals = Inr t' \<and>
           getitem (fst s') ''bus'' = Inr t'"
    and "\<exists>t on q ids vals t'. getitem (fst s) ''gen'' = Inr t \<and>
           status_on (snd s) ''gen'' = Inr on \<and>
           getitem2 (snd s) ''bus'' ''i2e'' = Inr q \<and> np_col t on (GEN_BUS X) = Inr ids \<and>
           np_take q ids = Inr vals \<and> np_set_col t on (GEN_BUS X) vals = Inr t' \<and>
           getitem (fst s') ''gen'' = Inr t'"
proof -
  from assms obtain s1 s2 s3 s4 where st:
    "revert_ids ''bus'' (BUS_I X) s = Inr s1" "revert_ids ''branch'' (F_BUS X) s1 = Inr s2"
    "revert_ids ''branch'' (T_BUS X) s2 = Inr s3" "revert_ids ''gen'' (GEN_BUS X) s3 = Inr s4"
    "when_key ''areas'' [revert_ids ''areas'' (PRICE_REF_BUS X)] s4 = Inr s'"
    unfolding revert_numbers_def by (auto simp: bindE_eq_Inr)
  note a = revert_ids_effect [OF st(1)]
  note b = revert_ids_effect [OF st(2)]
  note c = revert_ids_effect [OF st(3)]
  note d = revert_ids_effect [OF st(4)]
  note e = when_key_only [OF st(5),
      OF conjI [OF revert_ids_effect(1) impI [OF revert_ids_effect(2)]]]
  show "snd s' = snd s"
    by (simp add: a b c d e)
  show "k' \<notin> {''bus'', ''branch'', ''gen'', ''areas''} \<Longrightarrow>
          getitem (fst s') k' = getitem (fst s) k'"
    by (simp add: a b c d e)
  show "\<exists>t on q ids vals t'. getitem (fst s) ''bus'' = Inr t \<and>
           status_on (snd s) ''bus'' = Inr on \<and>
           getitem2 (snd s) ''bus'' ''i2e'' = Inr q \<and> np_col t on (BUS_I X) = Inr ids \<and>
           np_take q ids = Inr vals \<and> np_set_col t on (BUS_I X) vals = Inr t' \<and>
           getitem (fst s') ''bus'' = Inr t'"
    using a(3) by (simp add: a(1,2) b(1,2) c(1,2) d(1,2) e)
  show "\<exists>t on q ids vals t'. getitem (fst s) ''gen'' = Inr t \<and>
           status_on (snd s) ''gen'' = Inr on \<and>
           getitem2 (snd s) ''bus'' ''i2e'' = Inr q \<and> np_col t on (GEN_BUS X) = Inr ids \<and>
           np_take q ids = Inr vals \<and> np_set_col t on (GEN_BUS X) vals = Inr t' \<and>
           getitem (fst s') ''gen'' = Inr t'"
    using d(3) by (simp add: a(1,2) b(1,2) c(1,2) d(1,2) e)
qed

lemma finish_effect:
  assumes "run finish s = Inr s'"
  shows "getitem (fst s') k = (if k = ''order'' then Inr (snd s') else getitem (fst s) k)"
    and "getitem (snd s') ''state'' = Inr (PStr ''e'')"
    and "has_key (snd s') ''ext'' = Inr False"
    and "k' \<notin> {''state'', ''ext''} \<Longrightarrow> getitem (snd s') k' = getitem (snd s) k'"
    and "k' \<notin> {''state'', ''ext''} \<Longrightarrow> getitem2 (snd s') k' k2 = getitem2 (snd s) k' k2"
proof -
  from assms obtain s1 s2 where st:
    "drop_ext s = Inr s1" "set_state_e s1 = Inr s2" "store_order s2 = Inr s'"
    unfolding finish_def by (auto simp: bindE_eq_Inr)
  note a = drop_ext_effect [OF st(1)]
  note b = set_state_e_effect [OF st(2)]
  note c = store_order_effect [OF st(3)]
  show "getitem (fst s') k = (if k = ''order'' then Inr (snd s') else getitem (fst s) k)"
    by (simp add: a b c)
  show "getitem (snd s') ''state'' = Inr (PStr ''e'')"
    by (simp add: b c)
  show "has_key (snd s') ''ext'' = Inr False"
    by (simp add: a b c)
  show g: "k' \<notin> {''state'', ''ext''} \<Longrightarrow> getitem (snd s') k' = getitem (snd s) k'" for k'
    by (simp add: a b c)
  show "k' \<notin> {''state'', ''ext''} \<Longrightarrow> getitem2 (snd s') k' k2 = getitem2 (snd s) k' k2"
    by (rule getitem2_cong) (rule g)
qed

lemma restore_block_parts:
  assumes "run (restore_block X) s = Inr s'"
  obtains s1 s2 s3 where "run swap_tables s = Inr s1" "run update_data s1 = Inr s2"
    "run (revert_numbers X) s2 = Inr s3" "run finish s3 = Inr s'"
  using assms unfolding restore_block_def run_append
  by (auto simp: bindE_eq_Inr)

subsection \<open>Whole-case restore of a case in internal numbering\<close>

lemma int2ext_internal:
  assumes "getitem mpc ''order'' = Inr od" and "getitem od ''state'' = Inr (PStr ''i'')"
  shows "int2ext X mpc PNone gen branch areas =
     ([], bindE (callbacks X mpc) (\<lambda>mpc1.
          bindE (run (restore_block X) (mpc1, od)) (\<lambda>s. Inr (fst s, gen, branch, areas))))"
proof -
  from assms(1) have "has_key mpc ''order'' = Inr True"
    by (auto simp: getitem_Inr has_key_def)
  with assms getitem_is_dict [OF assms(1)] show ?thesis
    by (simp add: int2ext_def int2ext_case_def)
qed

lemma int2ext_internal_Inr:
  assumes "getitem mpc ''order'' = Inr od" and "getitem od ''state'' = Inr (PStr ''i'')"
    and "int2ext X mpc PNone gen branch areas = (log, Inr (r, g, b, a))"
  obtains mpc1 s' where "callbacks X mpc = Inr mpc1"
    and "run (restore_block X) (mpc1, od) = Inr s'" and "r = fst s'"
  using assms(3) unfolding int2ext_internal [OF assms(1,2)]
  by (auto simp: bindE_eq_Inr)

subsection \<open>Rows of the restored tables\<close>

lemma status_on_cong: "getitem d k = getitem d' k \<Longrightarrow> status_on d k = status_on d' k"
  by (simp add: status_on_def)

lemma pos_nonneg: "0 \<le> i \<Longrightarrow> pos n i = nat i"
  by (simp add: pos_def)

lemma valid_index_nonneg: "0 \<le> i \<Longrightarrow> valid_index n i \<longleftrightarrow> nat i < n"
  by (auto simp: valid_index_def)

text \<open>Rows scattered to the positions \<open>on\<close>, then renumbered in column \<open>c\<close>.\<close>

lemma scatter_renumber_rows:
  assumes P: "put_rows ext on G = Inr P"
    and ids: "take_col P on c = Inr idl"
    and vals: "vec_take q idl = Inr vl"
    and R: "put_col P on c vl = Inr R"
    and d: "distinct (map (pos (length ext)) on)"
  shows "length R = length ext"
    and "j < length on \<Longrightarrow>
           \<exists>w. broadcast (length (ext ! pos (length ext) (on ! j)))
                  (G ! (if length G = length on then j else 0)) = Inr w \<and>
               R ! pos (length ext) (on ! j) = renumber q c w"
    and "n \<notin> pos (length ext) ` set on \<Longrightarrow> R ! n = ext ! n"
proof -
  have len: "length P = length ext"
    using P by (rule put_rows_length)
  have lvl: "length vl = length on"
    using vec_take_Inr(1) [OF vals] take_col_Inr(1) [OF ids] by simp
  show "length R = length ext"
    using put_col_length [OF R] len by simp
  show "\<exists>w. broadcast (length (ext ! pos (length ext) (on ! j)))
                (G ! (if length G = length on then j else 0)) = Inr w \<and>
             R ! pos (length ext) (on ! j) = renumber q c w" if j: "j < length on"
  proof -
    let ?m = "pos (length ext) (on ! j)"
    have row: "broadcast (length (ext ! ?m)) (G ! (if length G = length on then j else 0)) =
        Inr (P ! ?m)"
      using put_rows_nth [OF P d j] .
    have "R ! ?m = (P ! ?m)[pos (length (P ! ?m)) c := vl ! j]"
      using put_col_nth [OF R lvl _ j] d len by simp
    moreover have "idl ! j = P ! ?m ! pos (length (P ! ?m)) c"
      using take_col_Inr(3) [OF ids j] len by simp
    moreover have "vl ! j = q ! pos (length q) (idl ! j)"
      using vec_take_Inr(3) [OF vals] take_col_Inr(1) [OF ids] j by simp
    ultimately have "R ! ?m = renumber q c (P ! ?m)"
      by (simp add: renumber_def Let_def)
    with row show ?thesis by blast
  qed
  show "R ! n = ext ! n" if "n \<notin> pos (length ext) ` set on"
    using put_col_untouched [OF R] put_rows_untouched [OF P] that len by simp
qed

text \<open>
  What the restore block does to \<open>bus\<close> and to \<open>gen\<close>, with the index and the rows
  read as numpy reads them.
\<close>

lemma restored_bus:
  assumes "run (restore_block X) (mpc1, od) = Inr s'"
  shows "\<exists>ext onv on src bi q P idl vl R.
      getitem2 od ''ext'' ''bus'' = Inr (PArr ext) \<and>
      status_on od ''bus'' = Inr onv \<and> as_index onv = Inr on \<and>
      getitem mpc1 ''bus'' = Inr src \<and> as_rows src = Inr bi \<and>
      getitem2 od ''bus'' ''i2e'' = Inr (PVec q) \<and>
      put_rows ext on bi = Inr P \<and> take_col P on (BUS_I X) = Inr idl \<and>
      vec_take q idl = Inr vl \<and> put_col P on (BUS_I X) vl = Inr R \<and>
      getitem (fst s') ''bus'' = Inr (PArr R)"
proof -
  from assms obtain s1 s2 s3 where parts:
    "run swap_tables (mpc1, od) = Inr s1" "run update_data s1 = Inr s2"
    "run (revert_numbers X) s2 = Inr s3" "run finish s3 = Inr s'"
    by (rule restore_block_parts)
  note p1 = swap_tables_effect(1-4) [OF parts(1)]
  note p2 = update_data_effect [OF parts(2)]
  note p3 = revert_numbers_effect [OF parts(3)]
  note p4 = finish_effect [OF parts(4)]
  have on1: "status_on (snd s1) ''bus'' = status_on od ''bus''"
    by (rule status_on_cong) (simp add: p1)
  from p2(3) obtain t on src t' where u:
    "getitem2 od ''ext'' ''bus'' = Inr t" "status_on od ''bus'' = Inr on"
    "getitem mpc1 ''bus'' = Inr src" "np_set_rows t on src = Inr t'"
    "getitem (fst s2) ''bus'' = Inr t'"
    by (auto simp: p1 on1)
  from p3(3) u(2,5) obtain q ids vals t'' where v:
    "getitem2 od ''bus'' ''i2e'' = Inr q" "np_col t' on (BUS_I X) = Inr ids"
    "np_take q ids = Inr vals" "np_set_col t' on (BUS_I X) vals = Inr t''"
    "getitem (fst s3) ''bus'' = Inr t''"
    by (auto simp: p2(1) p1 on1)
  have "getitem (fst s') ''bus'' = Inr t''"
    by (simp add: p4 v(5))
  with u v show ?thesis
    by (auto simp: np_set_rows_Inr np_col_Inr np_take_Inr np_set_col_Inr)
qed

lemma restored_gen:
  assumes "run (restore_block X) (mpc1, od) = Inr s'"
  shows "\<exists>ext onv on gi pv p q G P idl vl R.
      getitem2 od ''ext'' ''gen'' = Inr (PArr ext) \<and>
      status_on od ''gen'' = Inr onv \<and> as_index onv = Inr on \<and>
      getitem mpc1 ''gen'' = Inr (PArr gi) \<and>
      getitem2 od ''gen'' ''i2e'' = Inr pv \<and> as_index pv = Inr p \<and>
      getitem2 od ''bus'' ''i2e'' = Inr (PVec q) \<and> take_rows gi p = Inr G \<and>
      put_rows ext on G = Inr P \<and> take_col P on (GEN_BUS X) = Inr idl \<and>
      vec_take q idl = Inr vl \<and> put_col P on (GEN_BUS X) vl = Inr R \<and>
      getitem (fst s') ''gen'' = Inr (PArr R)"
proof -
  from assms obtain s1 s2 s3 where parts:
    "run swap_tables (mpc1, od) = Inr s1" "run update_data s1 = Inr s2"
    "run (revert_numbers X) s2 = Inr s3" "run finish s3 = Inr s'"
    by (rule restore_block_parts)
  note p1 = swap_tables_effect(1-4) [OF parts(1)]
  note p2 = update_data_effect [OF parts(2)]
  note p3 = revert_numbers_effect [OF parts(3)]
  note p4 = finish_effect [OF parts(4)]
  have on1: "status_on (snd s1) ''gen'' = status_on od ''gen''"
    by (rule status_on_cong) (simp add: p1)
  from p2(4) obtain t on gi p src t' where u:
    "getitem2 od ''ext'' ''gen'' = Inr t" "status_on od ''gen'' = Inr on"
    "getitem mpc1 ''gen'' = Inr gi" "getitem2 od ''gen'' ''i2e'' = Inr p"
    "np_rows gi p = Inr src" "np_set_rows t on src = Inr t'"
    "getitem (fst s2) ''gen'' = Inr t'"
    by (auto simp: p1 on1)
  from p3(4) u(2,7) obtain q ids vals t'' where v:
    "getitem2 od ''bus'' ''i2e'' = Inr q" "np_col t' on (GEN_BUS X) = Inr ids"
    "np_take q ids = Inr vals" "np_set_col t' on (GEN_BUS X) vals = Inr t''"
    "getitem (fst s3) ''gen'' = Inr t''"
    by (auto simp: p2(1) p1 on1)
  have "getitem (fst s') ''gen'' = Inr t''"
    by (simp add: p4 v(5))
  with u v show ?thesis
    by (auto simp: np_rows_Inr np_set_rows_Inr np_col_Inr np_take_Inr np_set_col_Inr)
qed

subsection \<open>The order record after the restore\<close>

lemma restored_order_record:
  assumes "getitem mpc ''order'' = Inr od"
    and "getitem od ''state'' = Inr (PStr ''i'')"
    and "int2ext X mpc PNone gen branch areas = (log, Inr (r, g, b, a))"
  obtains od' where "getitem r ''order'' = Inr od'" "getitem od' ''state'' = Inr (PStr ''e'')"
    "has_key od' ''ext'' = Inr False"
proof -
  from assms obtain mpc1 s' where run: "run (restore_block X) (mpc1, od) = Inr s'"
    and r: "r = fst s'"
    by (rule int2ext_internal_Inr)
  from run obtain s3 where fin: "run finish s3 = Inr s'"
    by (rule restore_block_parts)
  from finish_effect(1) [OF fin, of "''order''"] r have "getitem r ''order'' = Inr (snd s')"
    by simp
  with finish_effect(2,3) [OF fin] that show ?thesis by blast
qed

subsection \<open>A column renumbered in every row\<close>

lemma remap_col_Inr:
  assumes "remap_col i2e t c = Inr t'"
  shows "\<exists>q A. i2e = PVec q \<and> t = PArr A \<and> t' = PArr (map (renumber q c) A)"
proof -
  from assms obtain A q idl vl R where t: "t = PArr A" and q: "i2e = PVec q"
    and ids: "take_col A (map int [0 ..< length A]) c = Inr idl"
    and vals: "vec_take q idl = Inr vl"
    and R: "put_col A (map int [0 ..< length A]) c vl = Inr R"
    and t': "t' = PArr R"
    by (auto simp: remap_col_def bindE_eq_Inr np_col_Inr np_take_Inr np_set_col_Inr
        all_rows_def split: pyval.splits)
  let ?idx = "map int [0 ..< length A]"
  have p: "map (pos (length A)) ?idx = [0 ..< length A]"
    by (simp add: pos_nonneg map_idI)
  have d: "distinct (map (pos (length A)) ?idx)"
    unfolding p by simp
  have lvl: "length vl = length ?idx"
    using vec_take_Inr(1) [OF vals] take_col_Inr(1) [OF ids] by simp
  have "R ! n = renumber q c (A ! n)" if n: "n < length A" for n
  proof -
    from n have j: "n < length ?idx" by simp
    from n have m: "pos (length A) (?idx ! n) = n" by (simp add: pos_nonneg)
    have "R ! n = (A ! n)[pos (length (A ! n)) c := vl ! n]"
      using put_col_nth [OF R lvl d j] m by simp
    moreover have "idl ! n = A ! n ! pos (length (A ! n)) c"
      using take_col_Inr(3) [OF ids j] m by simp
    moreover have "vl ! n = q ! pos (length q) (idl ! n)"
      using vec_take_Inr(3) [OF vals, of n] take_col_Inr(1) [OF ids] n by simp
    ultimately show ?thesis
      by (simp add: renumber_def Let_def)
  qed
  with put_col_length [OF R] have "R = map (renumber q c) A"
    by (simp add: list_eq_iff_nth_eq)
  with t q t' show ?thesis by simp
qed

subsection \<open>The example case\<close>

lemma example_restore:
  "int2ext example_extern example_case PNone PNone PNone PNone =
     ([], Inr (example_restored, PNone, PNone, PNone))"
  by code_simp

lemma example_order_state:
  "getitem example_case ''order'' = Inr example_order"
  "getitem example_order ''state'' = Inr (PStr ''i'')"
  by (simp_all add: example_case_def example_order_def getitem_def)

lemma example_callbacks: "callbacks example_extern example_case = Inr example_case"
  by (simp add: callbacks_def example_case_def example_extern_def has_key_def)

lemma broadcast_restore:
  "int2ext example_extern broadcast_case PNone PNone PNone PNone =
     ([], Inr (broadcast_restored, PNone, PNone, PNone))"
  by code_simp

section \<open>Whole-case restore\<close>

text \<open>
  \<^bold>\<open>C1\<close>. The scenario of the specification. The order record has
  \<open>bus.status.on = [0, 2]\<close> and \<open>bus.i2e = [10, 30]\<close>, the external snapshot of \<open>bus\<close>
  has the three rows \<open>e0, e1, e2\<close> with the bus numbers 10, 20, 30, and the internal
  \<open>bus\<close> table has the two rows \<open>b0, b1\<close> with the bus numbers 0, 1. When the restore
  returns, the \<open>bus\<close> table of the result has three rows with the bus numbers
  10, 20, 30; rows 0 and 2 are \<open>b0\<close> and \<open>b1\<close>, at the width of the rows they replace,
  with the bus number replaced by 10 and 30, and row 1 is \<open>e1\<close>. When the internal
  rows are as wide as the rows of the snapshot, rows 0 and 2 are \<open>b0\<close> and \<open>b1\<close>
  themselves but for the bus number.
\<close>

theorem bus_scenario:
  assumes "getitem mpc ''order'' = Inr od"
    and "getitem od ''state'' = Inr (PStr ''i'')"
    and "callbacks X mpc = Inr mpc1"
    and "int2ext X mpc PNone gen branch areas = (log, Inr (r, g, b, a))"
    and "status_on od ''bus'' = Inr (PVec [0, 2])"
    and "getitem2 od ''bus'' ''i2e'' = Inr (PVec [10, 30])"
    and "getitem2 od ''ext'' ''bus'' = Inr (PArr [e0, e1, e2])"
    and "take_col [e0, e1, e2] [0, 1, 2] (BUS_I X) = Inr [10, 20, 30]"
    and "getitem mpc1 ''bus'' = Inr (PArr [b0, b1])"
    and "take_col [b0, b1] [0, 1] (BUS_I X) = Inr [0, 1]"
  shows "\<exists>w0 w2 r0 r2.
           broadcast (length e0) b0 = Inr w0 \<and> broadcast (length e2) b1 = Inr w2 \<and>
           r0 = w0[pos (length e0) (BUS_I X) := 10] \<and>
           r2 = w2[pos (length e2) (BUS_I X) := 30] \<and>
           getitem r ''bus'' = Inr (PArr [r0, e1, r2]) \<and>
           take_col [r0, e1, r2] [0, 1, 2] (BUS_I X) = Inr [10, 20, 30] \<and>
           (length b0 = length e0 \<longrightarrow> r0 = b0[pos (length b0) (BUS_I X) := 10]) \<and>
           (length b1 = length e2 \<longrightarrow> r2 = b1[pos (length b1) (BUS_I X) := 30])"
proof -
  let ?c = "BUS_I X"
  from assms(1,2,4) obtain mpc1' s' where "callbacks X mpc = Inr mpc1'"
    and "run (restore_block X) (mpc1', od) = Inr s'" and r: "r = fst s'"
    by (rule int2ext_internal_Inr)
  with assms(3) have "run (restore_block X) (mpc1, od) = Inr s'" by simp
  from restored_bus [OF this] assms(5-7,9) obtain P idl vl R where
    P: "put_rows [e0, e1, e2] [0, 2] [b0, b1] = Inr P"
    and ids: "take_col P [0, 2] ?c = Inr idl"
    and vals: "vec_take [10, 30] idl = Inr vl"
    and R: "put_col P [0, 2] ?c vl = Inr R"
    and res: "getitem r ''bus'' = Inr (PArr R)"
    by (auto simp: r)
  from P obtain w0 w2 where w: "broadcast (length e0) b0 = Inr w0"
    "broadcast (length e2) b1 = Inr w2" and P': "P = [w0, e1, w2]"
    by (auto simp: put_rows_def broadcast_same bindE_eq_Inr norm_index_Inr pos_nonneg)
  note len = broadcast_length [OF w(1)] broadcast_length [OF w(2)]
  from assms(10) have int: "valid_index (length b0) ?c" "b0 ! pos (length b0) ?c = 0"
    "valid_index (length b1) ?c" "b1 ! pos (length b1) ?c = 1"
    by (auto simp: take_col_def bindE_eq_Inr norm_index_Inr pos_nonneg)
  from assms(8) have ext: "valid_index (length e1) ?c" "e1 ! pos (length e1) ?c = 20"
    by (auto simp: take_col_def bindE_eq_Inr norm_index_Inr pos_nonneg)
  from ids have wide: "valid_index (length e0) ?c" "valid_index (length e2) ?c"
    and idl: "idl = [w0 ! pos (length e0) ?c, w2 ! pos (length e2) ?c]"
    by (auto simp: P' len take_col_def bindE_eq_Inr norm_index_Inr pos_nonneg)
  have "idl = [0, 1]"
    using broadcast_entry [OF w(1) int(1) wide(1)] broadcast_entry [OF w(2) int(3) wide(2)]
    by (simp add: idl int)
  with vals have vl: "vl = [10, 30]"
    by (auto simp: vec_take_def bindE_eq_Inr norm_index_Inr pos_nonneg)
  let ?r0 = "w0[pos (length e0) ?c := 10]"
  let ?r2 = "w2[pos (length e2) ?c := 30]"
  from R wide have R': "R = [?r0, e1, ?r2]"
    by (auto simp: P' vl len put_col_def broadcast_same bindE_eq_Inr norm_index_Inr pos_nonneg)
  have readback: "take_col [?r0, e1, ?r2] [0, 1, 2] ?c = Inr [10, 20, 30]"
    using wide ext pos_less [OF wide(1)] pos_less [OF wide(2)]
    by (simp add: len take_col_def norm_index_def valid_index_nonneg pos_nonneg)
  have same: "length b0 = length e0 \<longrightarrow> ?r0 = b0[pos (length b0) ?c := 10]"
    "length b1 = length e2 \<longrightarrow> ?r2 = b1[pos (length b1) ?c := 30]"
    using w by (auto simp: broadcast_same)
  from w res R' readback same show ?thesis by blast
qed

theorem bus_scenario_witness:
  "getitem example_case ''order'' = Inr example_order \<and>
   getitem example_order ''state'' = Inr (PStr ''i'') \<and>
   callbacks example_extern example_case = Inr example_case \<and>
   int2ext example_extern example_case PNone PNone PNone PNone =
     ([], Inr (example_restored, PNone, PNone, PNone)) \<and>
   status_on example_order ''bus'' = Inr (PVec [0, 2]) \<and>
   getitem2 example_order ''bus'' ''i2e'' = Inr (PVec [10, 30]) \<and>
   getitem2 example_order ''ext'' ''bus'' = Inr (PArr [[10, 1], [20, 2], [30, 3]]) \<and>
   take_col [[10, 1], [20, 2], [30, 3]] [0, 1, 2] (BUS_I example_extern) = Inr [10, 20, 30] \<and>
   getitem example_case ''bus'' = Inr (PArr [[0, 7], [1, 8]]) \<and>
   take_col [[0, 7], [1, 8]] [0, 1] (BUS_I example_extern) = Inr [0, 1] \<and>
   length [0, 7 :: int] = length [10, 1 :: int] \<and>
   length [1, 8 :: int] = length [30, 3 :: int] \<and>
   getitem example_restored ''bus'' = Inr (PArr [[10, 7], [20, 2], [30, 8]])"
proof -
  have h5: "status_on example_order ''bus'' = Inr (PVec [0, 2])"
    by (simp add: example_order_def order_entry_def status_on_def getitem_def)
  have h6: "getitem2 example_order ''bus'' ''i2e'' = Inr (PVec [10, 30])"
    by (simp add: example_order_def order_entry_def getitem2_def getitem_def)
  have h7: "getitem2 example_order ''ext'' ''bus'' = Inr (PArr [[10, 1], [20, 2], [30, 3]])"
    by (simp add: example_order_def getitem2_def getitem_def)
  have h8: "take_col [[10, 1], [20, 2], [30, 3]] [0, 1, 2] (BUS_I example_extern) =
      Inr [10, 20, 30]"
    by (simp add: example_extern_def take_col_def norm_index_def valid_index_nonneg pos_nonneg)
  have h9: "getitem example_case ''bus'' = Inr (PArr [[0, 7], [1, 8]])"
    by (simp add: example_case_def getitem_def)
  have h10: "take_col [[0, 7], [1, 8]] [0, 1] (BUS_I example_extern) = Inr [0, 1]"
    by (simp add: example_extern_def take_col_def norm_index_def valid_index_nonneg pos_nonneg)
  have c: "BUS_I example_extern = 0"
    by (simp add: example_extern_def)
  from bus_scenario [OF example_order_state example_callbacks example_restore h5 h6 h7 h8
      h9 h10]
  have "getitem example_restored ''bus'' = Inr (PArr [[10, 7], [20, 2], [30, 8]])"
    by (auto simp: c pos_nonneg)
  with example_order_state example_callbacks example_restore h5 h6 h7 h8 h9 h10
  show ?thesis by simp
qed

text \<open>The scenario with internal rows of one column: line 130 broadcasts them.\<close>

lemma bus_scenario_broadcast:
  "getitem broadcast_case ''bus'' = Inr (PArr [[0], [1]]) \<and>
   getitem2 broadcast_order ''ext'' ''bus'' = Inr (PArr [[10, 1], [20, 2], [30, 3]]) \<and>
   int2ext example_extern broadcast_case PNone PNone PNone PNone =
     ([], Inr (broadcast_restored, PNone, PNone, PNone)) \<and>
   getitem broadcast_restored ''bus'' = Inr (PArr [[10, 0], [20, 2], [30, 1]])"
  using broadcast_restore
  by (simp add: broadcast_case_def broadcast_order_def broadcast_restored_def getitem_def
      getitem2_def)

text \<open>
  \<^bold>\<open>C2\<close>. The generator rows. Let \<open>gi\<close> be the \<open>gen\<close> table of the case the restore block
  works on, \<open>ge\<close> the external snapshot \<open>order['ext']['gen']\<close>, \<open>on\<close> the positions
  \<open>order['gen']['status']['on']\<close>, \<open>p\<close> the vector \<open>order['gen']['i2e']\<close> and \<open>q\<close> the bus
  map \<open>order['bus']['i2e']\<close>. When the restore returns, \<open>gi\<close> was indexed by \<open>p\<close>, which
  has one entry per position of \<open>on\<close> or a single entry for all, and the \<open>gen\<close> table
  of the result is as long as \<open>ge\<close>. When no position occurs twice in \<open>on\<close>, the
  result holds at position \<open>on[j]\<close>
  row \<open>p[j]\<close> of \<open>gi\<close> (row \<open>p[0]\<close> when \<open>p\<close> has one entry for several positions) at the
  width of the row it replaces, with the generator-bus column renumbered through \<open>q\<close>;
  when that row of \<open>gi\<close> is as wide as the row it replaces, every column of it is as it
  was but the generator-bus column. Every row at no position of \<open>on\<close> is the row of
  \<open>ge\<close>.
\<close>

theorem gen_rows_unpermuted:
  assumes "getitem mpc ''order'' = Inr od"
    and "getitem od ''state'' = Inr (PStr ''i'')"
    and "callbacks X mpc = Inr mpc1"
    and "int2ext X mpc PNone gen branch areas = (log, Inr (r, g, b, a))"
    and "getitem mpc1 ''gen'' = Inr (PArr gi)"
    and "getitem2 od ''ext'' ''gen'' = Inr (PArr ge)"
    and "status_on od ''gen'' = Inr (PVec on)"
    and "getitem2 od ''gen'' ''i2e'' = Inr (PVec p)"
    and "getitem2 od ''bus'' ''i2e'' = Inr (PVec q)"
  shows "\<exists>G R.
           take_rows gi p = Inr G \<and>
           getitem r ''gen'' = Inr (PArr R) \<and> length R = length ge \<and>
           (length p = length on \<or> length p = 1) \<and>
           (distinct (map (pos (length ge)) on) \<longrightarrow>
              (\<forall>j < length on.
                 valid_index (length ge) (on ! j) \<and>
                 valid_index (length gi) (p ! (if length p = length on then j else 0)) \<and>
                 (\<exists>w. broadcast (length (ge ! pos (length ge) (on ! j)))
                        (gi ! pos (length gi) (p ! (if length p = length on then j else 0))) =
                        Inr w \<and>
                      R ! pos (length ge) (on ! j) = renumber q (GEN_BUS X) w) \<and>
                 (length p = length on \<longrightarrow>
                  length (gi ! pos (length gi) (p ! j)) =
                    length (ge ! pos (length ge) (on ! j)) \<longrightarrow>
                  R ! pos (length ge) (on ! j) =
                    renumber q (GEN_BUS X) (gi ! pos (length gi) (p ! j))))) \<and>
           (\<forall>n < length ge. n \<notin> pos (length ge) ` set on \<longrightarrow> R ! n = ge ! n)"
proof -
  from assms(1,2,4) obtain mpc1' s' where "callbacks X mpc = Inr mpc1'"
    and "run (restore_block X) (mpc1', od) = Inr s'" and r: "r = fst s'"
    by (rule int2ext_internal_Inr)
  with assms(3) have "run (restore_block X) (mpc1, od) = Inr s'" by simp
  from restored_gen [OF this] assms(5-9) obtain G P idl vl R where
    G: "take_rows gi p = Inr G"
    and P: "put_rows ge on G = Inr P"
    and ids: "take_col P on (GEN_BUS X) = Inr idl"
    and vals: "vec_take q idl = Inr vl"
    and R: "put_col P on (GEN_BUS X) vl = Inr R"
    and res: "getitem r ''gen'' = Inr (PArr R)"
    by (auto simp: r)
  have lenR: "length R = length ge"
    using put_col_length [OF R] put_rows_length [OF P] by simp
  have lenG: "length G = length p"
    using take_rows_Inr(1) [OF G] .
  have shape: "length p = length on \<or> length p = 1"
    using put_rows_shape [OF P] lenG by simp
  have placed: "valid_index (length ge) (on ! j) \<and>
      valid_index (length gi) (p ! (if length p = length on then j else 0)) \<and>
      (\<exists>w. broadcast (length (ge ! pos (length ge) (on ! j)))
             (gi ! pos (length gi) (p ! (if length p = length on then j else 0))) = Inr w \<and>
           R ! pos (length ge) (on ! j) = renumber q (GEN_BUS X) w) \<and>
      (length p = length on \<longrightarrow>
       length (gi ! pos (length gi) (p ! j)) = length (ge ! pos (length ge) (on ! j)) \<longrightarrow>
       R ! pos (length ge) (on ! j) = renumber q (GEN_BUS X) (gi ! pos (length gi) (p ! j)))"
    if d: "distinct (map (pos (length ge)) on)" and j: "j < length on" for j
  proof -
    let ?j = "if length p = length on then j else 0"
    let ?m = "pos (length ge) (on ! j)"
    let ?row = "gi ! pos (length gi) (p ! ?j)"
    from shape j have j': "?j < length p" by auto
    note row = take_rows_Inr(2,3) [OF G j']
    from scatter_renumber_rows(2) [OF P ids vals R d j] obtain w
      where w: "broadcast (length (ge ! ?m)) ?row = Inr w"
        and Rm: "R ! ?m = renumber q (GEN_BUS X) w"
      by (auto simp: lenG row)
    have "R ! ?m = renumber q (GEN_BUS X) ?row" if "length ?row = length (ge ! ?m)"
      using w Rm broadcast_same [OF that] by simp
    with w Rm row(1) put_rows_valid [OF P nth_mem [OF j]] show ?thesis
      by auto
  qed
  have kept: "R ! n = ge ! n" if "n \<notin> pos (length ge) ` set on" for n
    using put_col_untouched [OF R] put_rows_untouched [OF P] that put_rows_length [OF P]
    by simp
  from G res lenR shape placed kept show ?thesis by blast
qed

theorem gen_rows_unpermuted_witness:
  "getitem example_case ''order'' = Inr example_order \<and>
   getitem example_order ''state'' = Inr (PStr ''i'') \<and>
   callbacks example_extern example_case = Inr example_case \<and>
   int2ext example_extern example_case PNone PNone PNone PNone =
     ([], Inr (example_restored, PNone, PNone, PNone)) \<and>
   getitem example_case ''gen'' = Inr (PArr [[1, 50], [0, 60]]) \<and>
   getitem2 example_order ''ext'' ''gen'' = Inr (PArr [[10, 0], [20, 0], [30, 0]]) \<and>
   status_on example_order ''gen'' = Inr (PVec [0, 2]) \<and>
   getitem2 example_order ''gen'' ''i2e'' = Inr (PVec [1, 0]) \<and>
   getitem2 example_order ''bus'' ''i2e'' = Inr (PVec [10, 30]) \<and>
   distinct (map (pos (length [[10, 0], [20, 0], [30, 0 :: int]])) [0, 2]) \<and>
   length [1, 0 :: int] = length [0, 2 :: int] \<and>
   length [0, 60 :: int] = length [10, 0 :: int] \<and>
   length [1, 50 :: int] = length [30, 0 :: int] \<and>
   take_rows [[1, 50], [0, 60]] [1, 0] = Inr [[0, 60], [1, 50]] \<and>
   getitem example_restored ''gen'' = Inr (PArr [[10, 60], [20, 0], [30, 50]]) \<and>
   renumber [10, 30] (GEN_BUS example_extern) [0, 60] = [10, 60] \<and>
   renumber [10, 30] (GEN_BUS example_extern) [1, 50] = [30, 50]"
proof -
  have h5: "getitem example_case ''gen'' = Inr (PArr [[1, 50], [0, 60]])"
    by (simp add: example_case_def getitem_def)
  have h6: "getitem2 example_order ''ext'' ''gen'' = Inr (PArr [[10, 0], [20, 0], [30, 0]])"
    by (simp add: example_order_def getitem2_def getitem_def)
  have h7: "status_on example_order ''gen'' = Inr (PVec [0, 2])"
    by (simp add: example_order_def order_entry_def status_on_def getitem_def)
  have h8: "getitem2 example_order ''gen'' ''i2e'' = Inr (PVec [1, 0])"
    by (simp add: example_order_def order_entry_def getitem2_def getitem_def)
  have h9: "getitem2 example_order ''bus'' ''i2e'' = Inr (PVec [10, 30])"
    by (simp add: example_order_def order_entry_def getitem2_def getitem_def)
  have h10: "distinct (map (pos (length [[10, 0], [20, 0], [30, 0 :: int]])) [0, 2])"
    by (simp add: pos_nonneg)
  have res: "getitem example_restored ''gen'' = Inr (PArr [[10, 60], [20, 0], [30, 50]])"
    by (simp add: example_restored_def getitem_def)
  have rn: "renumber [10, 30] (GEN_BUS example_extern) [0, 60] = [10, 60]"
    "renumber [10, 30] (GEN_BUS example_extern) [1, 50] = [30, 50]"
    by (simp_all add: renumber_def example_extern_def pos_nonneg)
  have tr: "take_rows [[1, 50], [0, 60]] [1, 0] = Inr [[0, 60], [1, 50]]"
    by (simp add: take_rows_def norm_index_def valid_index_nonneg pos_nonneg)
  from gen_rows_unpermuted [OF example_order_state example_callbacks example_restore h5 h6
      h7 h8 h9]
    example_order_state example_callbacks example_restore h5 h6 h7 h8 h9 h10 res rn tr
  show ?thesis by simp
qed

text \<open>A \<open>gen.i2e\<close> of one entry for two positions: line 134 broadcasts the one row.\<close>

lemma gen_rows_broadcast:
  "getitem broadcast_case ''gen'' = Inr (PArr [[1, 50], [0, 60]]) \<and>
   getitem2 broadcast_order ''gen'' ''i2e'' = Inr (PVec [1]) \<and>
   status_on broadcast_order ''gen'' = Inr (PVec [0, 2]) \<and>
   int2ext example_extern broadcast_case PNone PNone PNone PNone =
     ([], Inr (broadcast_restored, PNone, PNone, PNone)) \<and>
   getitem broadcast_restored ''gen'' = Inr (PArr [[10, 60], [20, 0], [10, 60]])"
  using broadcast_restore
  by (simp add: broadcast_case_def broadcast_order_def broadcast_restored_def order_entry_def
      getitem_def getitem2_def status_on_def)

text \<open>
  \<^bold>\<open>C3\<close>. A case without the key \<open>'order'\<close>: line 100 logs the error, and line 102
  then subscripts the case with \<open>'order'\<close> all the same, so the call ends in a KeyError
  and returns nothing.
\<close>

theorem missing_order_raises:
  "int2ext X (PDict [(''bus'', PArr [[0, 7], [1, 8]]), (''branch'', PArr [[0, 1, 5]]),
                     (''gen'', PArr [[1, 50], [0, 60]])]) PNone PNone PNone PNone =
     ([msg_no_order], Inl (KeyError ''order''))"
  by (simp add: int2ext_def int2ext_case_def is_dict_def has_key_def getitem_def)

lemma missing_order_always_raises:
  "map_of m ''order'' = None \<Longrightarrow>
     int2ext X (PDict m) PNone gen branch areas = ([msg_no_order], Inl (KeyError ''order''))"
  by (simp add: int2ext_def int2ext_case_def is_dict_def has_key_def getitem_def)

text \<open>
  \<^bold>\<open>C4\<close>. A case whose order record says external numbering: the call logs that the
  case claims to be in external numbering already and returns the case as it is, tables
  and order record included. In particular a second restore of the case that a first
  restore returned logs the condition and returns that case unchanged.
\<close>

theorem already_external_is_reported:
  "(getitem mpc ''order'' = Inr od \<longrightarrow> getitem od ''state'' = Inr (PStr ''e'') \<longrightarrow>
      int2ext X mpc PNone gen branch areas =
        ([msg_already_external], Inr (mpc, gen, branch, areas))) \<and>
   (getitem mpc0 ''order'' = Inr od0 \<longrightarrow> getitem od0 ''state'' = Inr (PStr ''i'') \<longrightarrow>
      int2ext X mpc0 PNone gen branch areas = (log, Inr (r, g, b, a)) \<longrightarrow>
      int2ext X r PNone gen branch areas =
        ([msg_already_external], Inr (r, gen, branch, areas)))"
proof -
  have ext: "int2ext X c PNone gen branch areas =
      ([msg_already_external], Inr (c, gen, branch, areas))"
    if "getitem c ''order'' = Inr d" "getitem d ''state'' = Inr (PStr ''e'')" for c d
  proof -
    from that(1) have "has_key c ''order'' = Inr True"
      by (auto simp: getitem_Inr has_key_def)
    with that getitem_is_dict [OF that(1)] show ?thesis
      by (simp add: int2ext_def int2ext_case_def)
  qed
  have "int2ext X r PNone gen branch areas =
      ([msg_already_external], Inr (r, gen, branch, areas))"
    if "getitem mpc0 ''order'' = Inr od0" "getitem od0 ''state'' = Inr (PStr ''i'')"
      "int2ext X mpc0 PNone gen branch areas = (log, Inr (r, g, b, a))"
  proof -
    from that obtain od'
      where "getitem r ''order'' = Inr od'" "getitem od' ''state'' = Inr (PStr ''e'')"
      by (rule restored_order_record)
    then show ?thesis by (rule ext)
  qed
  with ext show ?thesis by blast
qed

theorem already_external_is_reported_witness:
  "getitem example_restored ''order'' = Inr example_restored_order \<and>
   getitem example_restored_order ''state'' = Inr (PStr ''e'') \<and>
   int2ext example_extern example_restored PNone PNone PNone PNone =
     ([msg_already_external], Inr (example_restored, PNone, PNone, PNone)) \<and>
   getitem example_case ''order'' = Inr example_order \<and>
   getitem example_order ''state'' = Inr (PStr ''i'') \<and>
   int2ext example_extern example_case PNone PNone PNone PNone =
     ([], Inr (example_restored, PNone, PNone, PNone))"
proof -
  have e: "getitem example_restored ''order'' = Inr example_restored_order"
    "getitem example_restored_order ''state'' = Inr (PStr ''e'')"
    by (simp_all add: example_restored_def example_restored_order_def getitem_def)
  from already_external_is_reported [of example_restored example_restored_order
      example_extern PNone PNone PNone example_case example_order "[]" example_restored
      PNone PNone PNone]
    e example_order_state example_restore
  show ?thesis by simp
qed

text \<open>
  \<^bold>\<open>C5\<close>. Postcondition of a successful whole-case restore: when the case enters with
  \<open>order['state'] == 'i'\<close> and the call returns, the returned case has an order record
  whose state is \<open>'e'\<close> and that no longer has the key \<open>'ext'\<close>.
\<close>

theorem restore_sets_state_external:
  assumes "getitem mpc ''order'' = Inr od"
    and "getitem od ''state'' = Inr (PStr ''i'')"
    and "int2ext X mpc PNone gen branch areas = (log, Inr (r, g, b, a))"
  shows "\<exists>od'. getitem r ''order'' = Inr od' \<and> getitem od' ''state'' = Inr (PStr ''e'') \<and>
           has_key od' ''ext'' = Inr False"
  using restored_order_record [OF assms] by metis

theorem restore_sets_state_external_witness:
  "getitem example_case ''order'' = Inr example_order \<and>
   getitem example_order ''state'' = Inr (PStr ''i'') \<and>
   int2ext example_extern example_case PNone PNone PNone PNone =
     ([], Inr (example_restored, PNone, PNone, PNone)) \<and>
   (\<exists>od'. getitem example_restored ''order'' = Inr od' \<and>
      getitem od' ''state'' = Inr (PStr ''e'') \<and> has_key od' ''ext'' = Inr False)"
  using restore_sets_state_external [OF example_order_state example_restore]
    example_order_state example_restore
  by simp

text \<open>
  \<^bold>\<open>C10\<close>. \<open>gencost\<close> gets no row-level update and no renumbering. When the case that
  the restore block works on (the case the callbacks return) has a \<open>gencost\<close> table
  \<open>gc\<close>, the returned case's \<open>gencost\<close> is the snapshot \<open>order['ext']['gencost']\<close> as it
  was, and \<open>gc\<close> is kept in \<open>order['int']['gencost']\<close> only.
\<close>

theorem gencost_is_ext_snapshot:
  assumes "getitem mpc ''order'' = Inr od"
    and "getitem od ''state'' = Inr (PStr ''i'')"
    and "callbacks X mpc = Inr mpc1"
    and "getitem mpc1 ''gencost'' = Inr gc"
    and "int2ext X mpc PNone gen branch areas = (log, Inr (r, g, b, a))"
  shows "\<exists>snapshot od'. getitem2 od ''ext'' ''gencost'' = Inr snapshot \<and>
           getitem r ''gencost'' = Inr snapshot \<and>
           getitem r ''order'' = Inr od' \<and> getitem2 od' ''int'' ''gencost'' = Inr gc"
proof -
  from assms(1,2,5) obtain mpc1' s' where "callbacks X mpc = Inr mpc1'"
    and run: "run (restore_block X) (mpc1', od) = Inr s'" and r: "r = fst s'"
    by (rule int2ext_internal_Inr)
  with assms(3) have run: "run (restore_block X) (mpc1, od) = Inr s'" by simp
  from run obtain s1 s2 s3 where parts:
    "run swap_tables (mpc1, od) = Inr s1" "run update_data s1 = Inr s2"
    "run (revert_numbers X) s2 = Inr s3" "run finish s3 = Inr s'"
    by (rule restore_block_parts)
  note p1 = swap_tables_effect [OF parts(1)]
  note p2 = update_data_effect(1,2) [OF parts(2)]
  note p3 = revert_numbers_effect(1,2) [OF parts(3)]
  note p4 = finish_effect [OF parts(4)]
  have tbl: "getitem r ''gencost'' = getitem2 od ''ext'' ''gencost''"
    using p1(5) [of gc] assms(4) by (simp add: r p4 p3 p2)
  have int: "getitem2 (snd s') ''int'' ''gencost'' = Inr gc"
    using p1(6) [of gc] assms(4) by (simp add: p4 p3 p2)
  have ord: "getitem r ''order'' = Inr (snd s')"
    by (simp add: r p4)
  from p1(7) [of gc] assms(4) obtain e where "getitem2 od ''ext'' ''gencost'' = Inr e"
    by auto
  with tbl int ord show ?thesis by auto
qed

theorem gencost_is_ext_snapshot_witness:
  "getitem example_case ''order'' = Inr example_order \<and>
   getitem example_order ''state'' = Inr (PStr ''i'') \<and>
   callbacks example_extern example_case = Inr example_case \<and>
   getitem example_case ''gencost'' = Inr (PArr [[9, 9], [8, 8]]) \<and>
   int2ext example_extern example_case PNone PNone PNone PNone =
     ([], Inr (example_restored, PNone, PNone, PNone)) \<and>
   getitem2 example_order ''ext'' ''gencost'' = Inr (PArr [[1, 1], [2, 2], [3, 3]]) \<and>
   getitem example_restored ''gencost'' = Inr (PArr [[1, 1], [2, 2], [3, 3]]) \<and>
   (\<exists>od'. getitem example_restored ''order'' = Inr od' \<and>
      getitem2 od' ''int'' ''gencost'' = Inr (PArr [[9, 9], [8, 8]]))"
proof -
  have gc: "getitem example_case ''gencost'' = Inr (PArr [[9, 9], [8, 8]])"
    by (simp add: example_case_def getitem_def)
  have snap: "getitem2 example_order ''ext'' ''gencost'' = Inr (PArr [[1, 1], [2, 2], [3, 3]])"
    by (simp add: example_order_def getitem2_def getitem_def)
  from gencost_is_ext_snapshot [OF example_order_state example_callbacks gc example_restore]
    snap gc example_order_state example_callbacks example_restore
  show ?thesis by simp
qed

section \<open>Named-field conversion\<close>

text \<open>
  \<^bold>\<open>C6\<close>. Named-field conversion with the field name \<open>'gencost'\<close> on the example case:
  line 176 reads \<open>mpc['field']\<close>, a key the case does not have, and the call ends in a
  KeyError. Nothing is cached and nothing is converted.
\<close>

theorem named_field_raises:
  "int2ext X example_case (PStr ''gencost'') (PStr ''gen'') PNone PNone =
     ([], Inl (KeyError ''field''))"
  by (simp add: int2ext_def int2ext_field_def example_case_def is_dict_def is_str_def
      getitem_def)

text \<open>No call with a field name or a path returns, whatever the case holds.\<close>

lemma int2ext_field_never_returns:
  "int2ext_field X mpc field ordering' branch areas \<noteq> Inr res"
  by (auto simp: int2ext_field_def bindE_eq_Inr Let_def split: pyval.splits if_splits)

lemma named_field_never_returns:
  "int2ext X (PDict m) (PStr F) ordering' dim areas \<noteq> (log, Inr res)"
  by (simp add: int2ext_def is_dict_def is_str_def int2ext_field_never_returns)

section \<open>Raw-value conversion\<close>

text \<open>
  \<^bold>\<open>C7\<close>. Raw-value conversion with the single tag \<open>'bus'\<close> on the example case, whose
  order record has the entry \<open>order['bus']\<close> with \<open>status.on = [0, 2]\<close>: line 205 reads
  \<open>o['ordering']\<close>, the key spelled by the string literal, which the order record
  does not have, and the call ends in a KeyError instead of scattering the two rows.
\<close>

theorem single_tag_raises:
  "int2ext X example_case (PArr [[5], [6]]) (PArr [[1], [2], [3]]) (PStr ''bus'') PNone =
     ([], Inl (KeyError ''ordering''))"
  by (simp add: int2ext_def int2ext_value_def example_case_def example_order_def is_dict_def
      is_str_def is_list_def getitem_def status_on_def)

text \<open>The entry that is read is the one under the key \<open>'ordering'\<close>, whatever the tag.\<close>

lemma single_tag_reads_ordering_key:
  assumes "getitem mpc ''order'' = Inr od" and "tag \<noteq> ''gen''"
  shows "int2ext_value X mpc val oldval (PStr tag) PNone =
     bindE (status_on od ''ordering'') (\<lambda>on.
     bindE (set_reorder X oldval val on (PInt 1)) (\<lambda>r. Inr (r, oldval, PStr tag, PNone)))"
  using assms by (simp add: int2ext_value_def is_str_def)

text \<open>
  \<^bold>\<open>C8\<close>. Raw-value conversion with the composite descriptor \<open>['bus']\<close> on the example
  case, for a value of three rows of which the descriptor accounts for two: the first
  pass of the loop reads \<open>o['ext']['ordering']\<close> and the call ends in a KeyError. No
  result is assembled, so no trailing row is passed through.
\<close>

theorem composite_raises:
  "int2ext X example_case (PArr [[5], [6], [7]]) (PArr [[1], [2], [3], [4]])
      (PList [PStr ''bus'']) PNone =
     ([], Inl (KeyError ''ordering''))"
  by (simp add: int2ext_def int2ext_value_def multi_body_def example_case_def
      example_order_def is_dict_def is_str_def is_list_def getitem_def py_len_def)

text \<open>No call with a composite descriptor returns: the loop body raises in its first pass,
  and with no pass at all line 217 raises.\<close>

lemma multi_body_raises: "multi_body mpc od k s \<noteq> Inr s'"
  by (auto simp: multi_body_def bindE_eq_Inr)

lemma composite_never_returns:
  assumes "\<not> is_str ordering'"
  shows "int2ext_value X mpc val oldval ordering' areas \<noteq> Inr res"
proof
  assume "int2ext_value X mpc val oldval ordering' areas = Inr res"
  with assms obtain od n s where "run (map (multi_body mpc od) [0 ..< n]) (0, 0) = Inr s"
    and "(Inl (NameError ''size'') :: error + pyval \<times> pyval \<times> pyval \<times> pyval) = Inr res"
    by (auto simp: int2ext_value_def bindE_eq_Inr Let_def)
  then show False by simp
qed

section \<open>The old form\<close>

text \<open>
  \<^bold>\<open>C9\<close>. The old form with the map \<open>[10, 30]\<close> and an areas table whose one row is
  area 1 with reference bus 0: \<open>bus\<close>, \<open>gen\<close> and \<open>branch\<close> come back renumbered, and
  \<open>areas\<close> comes back as it was, reference bus 0 included. Line 227 renumbers \<open>areas\<close>
  only when \<open>areas.any()\<close> is false, that is when every entry of the table is zero.
\<close>

theorem old_form_skips_areas:
  "int2ext example_extern (PVec [10, 30]) (PArr [[0, 7], [1, 8]]) (PArr [[1, 50], [0, 60]])
      (PArr [[0, 1, 5]]) (PArr [[1, 0]]) =
     ([], Inr (PArr [[10, 7], [30, 8]], PArr [[30, 50], [10, 60]], PArr [[10, 30, 5]],
               PArr [[1, 0]]))"
  by code_simp

lemma old_form_renumbers_zero_areas:
  "int2ext example_extern (PVec [10, 30]) (PArr [[0, 7], [1, 8]]) (PArr [[1, 50], [0, 60]])
      (PArr [[0, 1, 5]]) (PArr [[0, 0]]) =
     ([], Inr (PArr [[10, 7], [30, 8]], PArr [[30, 50], [10, 60]], PArr [[10, 30, 5]],
               PArr [[0, 10]]))"
  by code_simp

lemma old_form_tolerates_no_areas:
  "int2ext example_extern (PVec [10, 30]) (PArr [[0, 7], [1, 8]]) (PArr [[1, 50], [0, 60]])
      (PArr [[0, 1, 5]]) PNone =
     ([], Inr (PArr [[10, 7], [30, 8]], PArr [[30, 50], [10, 60]], PArr [[10, 30, 5]],
               PNone))"
  by code_simp

lemma old_form_areas_unchanged:
  assumes "np_any areas = Inr True"
    and "int2ext_old X i2e bus gen branch areas = Inr (bus', gen', branch', areas')"
  shows "areas' = areas"
  using assms by (auto simp: int2ext_old_def bindE_eq_Inr split: if_splits)

lemma old_form_tables:
  assumes "\<not> is_dict i2e"
    and "int2ext X i2e bus gen branch areas = (log, Inr (bus', gen', branch', areas'))"
  shows "\<exists>q B G Br. i2e = PVec q \<and> bus = PArr B \<and> gen = PArr G \<and> branch = PArr Br \<and>
      bus' = PArr (map (renumber q (BUS_I X)) B) \<and>
      gen' = PArr (map (renumber q (GEN_BUS X)) G) \<and>
      branch' = PArr (map (renumber q (T_BUS X)) (map (renumber q (F_BUS X)) Br)) \<and>
      (areas = PNone \<longrightarrow> areas' = PNone) \<and>
      (np_any areas = Inr True \<longrightarrow> areas' = areas)"
proof -
  from assms have old: "int2ext_old X i2e bus gen branch areas = Inr (bus', gen', branch', areas')"
    by (simp add: int2ext_def)
  then obtain b1 where
    1: "remap_col i2e bus (BUS_I X) = Inr bus'"
    and 2: "remap_col i2e gen (GEN_BUS X) = Inr gen'"
    and 3: "remap_col i2e branch (F_BUS X) = Inr b1"
    and 4: "remap_col i2e b1 (T_BUS X) = Inr branch'"
    by (auto simp: int2ext_old_def bindE_eq_Inr split: if_splits)
  from old have ar: "areas = PNone \<longrightarrow> areas' = PNone"
    by (auto simp: int2ext_old_def bindE_eq_Inr split: if_splits)
  from old have ar': "np_any areas = Inr True \<longrightarrow> areas' = areas"
    by (auto simp: int2ext_old_def bindE_eq_Inr split: if_splits)
  from remap_col_Inr [OF 1] remap_col_Inr [OF 2] remap_col_Inr [OF 3] remap_col_Inr [OF 4]
    ar ar'
  show ?thesis by auto
qed

end
